theory Spec2Isabelle
  imports Main "HOL-Library.Word"
begin

unbundle bit_operations_syntax

section \<open>The HPI archive reader of hpiutil2 (hpifile.cpp)\<close>

text \<open>
  The development embeds the four member functions of \<^verbatim>\<open>hpifile\<close> that
  \<^verbatim>\<open>src/rts/hpiutil2/hpifile.cpp\<close> implements: \<^verbatim>\<open>validate\<close>, \<^verbatim>\<open>dirinfo\<close>,
  \<^verbatim>\<open>fileinfo\<close> and \<^verbatim>\<open>getdata\<close>. The classes they call (\<^verbatim>\<open>scrambledfile\<close>,
  \<^verbatim>\<open>substream\<close>, \<^verbatim>\<open>sqshstream\<close>, \<^verbatim>\<open>hpientry\<close>) and the header
  \<^verbatim>\<open>hpifile.h\<close> are not among the sources; what is needed of them is modelled from the
  specification and marked as such.
\<close>

type_synonym u8 = "8 word"
type_synonym u32 = "32 word"

subsection \<open>The transformed stream\<close>

text \<open>
  Modelled from the spec: class \<^verbatim>\<open>scrambledfile\<close> (the TransformedStream), which the
  sources only call. The spec describes it as a seekable byte source with one cursor, a
  settable transform key, reads of single bytes and of little-endian 32-bit integers, and a
  read of a delimited string whose delimiter convention it leaves open. The keyed transform
  and the string primitive are external, so the stream carries them as two functions:
  \<open>byte_at k p\<close> is the byte the stream delivers at position \<open>p\<close> while the key is
  \<open>k\<close>, and \<open>string_at k p\<close> is the string read at position \<open>p\<close> together with
  the number of bytes the read consumes. Both are total; what they answer beyond the end of
  the file is whatever the external primitive answers there.
\<close>

record scrambledfile =
  byte_at :: "u32 \<Rightarrow> nat \<Rightarrow> u8"
  string_at :: "u32 \<Rightarrow> nat \<Rightarrow> string \<times> nat"
  cursor :: nat
  key :: u32

definition seek :: "u32 \<Rightarrow> scrambledfile \<Rightarrow> scrambledfile" where
  "seek p f = f\<lparr>cursor := unat p\<rparr>"

definition setkey :: "u32 \<Rightarrow> scrambledfile \<Rightarrow> scrambledfile" where
  "setkey k f = f\<lparr>key := k\<rparr>"

definition read :: "scrambledfile \<Rightarrow> u8 \<times> scrambledfile" where
  "read f = (byte_at f (key f) (cursor f), f\<lparr>cursor := cursor f + 1\<rparr>)"

definition readint :: "scrambledfile \<Rightarrow> u32 \<times> scrambledfile" where
  "readint f =
     (let (b0, f1) = read f;
          (b1, f2) = read f1;
          (b2, f3) = read f2;
          (b3, f4) = read f3
      in (ucast b0 + push_bit 8 (ucast b1) + push_bit 16 (ucast b2) + push_bit 24 (ucast b3),
          f4))"

definition readstring :: "scrambledfile \<Rightarrow> string \<times> scrambledfile" where
  "readstring f =
     (let (s, n) = string_at f (key f) (cursor f)
      in (s, f\<lparr>cursor := cursor f + n\<rparr>))"

text \<open>
  \<^verbatim>\<open>uint32_t currentpos = file->file.tellg()\<close>: the position of the underlying file
  stream, stored in a 32-bit variable.
\<close>

definition tellg :: "scrambledfile \<Rightarrow> u32" where
  "tellg f = of_nat (cursor f)"

text \<open>
  Modelled from the spec: class \<^verbatim>\<open>substream\<close>, the bounded view of the stream that
  \<^verbatim>\<open>substream(*file, start, size)\<close> constructs: exactly \<open>size\<close> bytes starting at
  \<open>start\<close>. The spec does not say where the shared cursor is left; the model leaves it at
  the end of the view. What the properties below say about the views, the returned count
  and the buffer does not depend on that choice.
\<close>

record substream =
  ss_start :: u32
  ss_size :: u32
  ss_bytes :: "u8 list"

definition substream :: "scrambledfile \<Rightarrow> u32 \<Rightarrow> u32 \<Rightarrow> substream \<times> scrambledfile" where
  "substream f start sz =
     (\<lparr>ss_start = start, ss_size = sz,
       ss_bytes = map (byte_at f (key f)) [unat start ..< unat start + unat sz]\<rparr>,
      f\<lparr>cursor := unat start + unat sz\<rparr>)"

text \<open>
  Modelled from the spec: class \<^verbatim>\<open>sqshstream\<close> (the ChunkCodec), external to the
  reader: given a bounded view it reports whether the view is a valid compressed chunk
  (member \<^verbatim>\<open>valid\<close>) and, if so, \<^verbatim>\<open>readall\<close> decompresses it into the caller's
  buffer and returns the number of bytes written. The codec is a parameter of
  \<^verbatim>\<open>getdata\<close>.
\<close>

record sqshstream =
  sqsh_valid :: "substream \<Rightarrow> bool"
  sqsh_readall :: "substream \<Rightarrow> u8 list"

subsection \<open>Entries and the archive object\<close>

text \<open>
  Modelled from the spec: class \<^verbatim>\<open>hpientry\<close>. The sources use its constructor
  \<^verbatim>\<open>hpientry(*this, parentname, name, offset, size)\<close> and its members \<^verbatim>\<open>file\<close>,
  \<^verbatim>\<open>directory\<close>, \<^verbatim>\<open>subdir\<close>, \<^verbatim>\<open>offset\<close> and \<^verbatim>\<open>size\<close>. Entries are
  allocated with \<^verbatim>\<open>new\<close> and referred to by pointer; an address is the index of the
  entry in the store \<open>heap\<close> of the archive state, in order of allocation. The
  back-reference \<open>he_file\<close> is the address of the owning archive object.
\<close>

record hpientry =
  he_file :: nat
  he_parentname :: string
  he_name :: string
  he_offset :: u32
  he_size :: u32
  directory :: bool
  subdir :: "nat list"

definition new_hpientry :: "nat \<Rightarrow> string \<Rightarrow> string \<Rightarrow> u32 \<Rightarrow> u32 \<Rightarrow> hpientry" where
  "new_hpientry f pname n off sz =
     \<lparr>he_file = f, he_parentname = pname, he_name = n, he_offset = off, he_size = sz,
      directory = False, subdir = []\<rparr>"

text \<open>
  The object \<^verbatim>\<open>hpifile\<close>: \<open>self\<close> is its address (\<^verbatim>\<open>this\<close>), \<open>stream\<close> the
  stream it owns (member \<^verbatim>\<open>file\<close>), \<open>flatlist\<close> the vector of entry pointers, \<open>heap\<close> the entries
  allocated so far.
\<close>

record hpifile =
  self :: nat
  stream :: scrambledfile
  valid :: bool
  header_hapimagic :: u32
  header_bankmagic :: u32
  header_offset :: u32
  header_key :: u32
  header_diroffset :: u32
  flatlist :: "nat list"
  heap :: "hpientry list"

text \<open>
  Modelled from the spec: the constants and macros of \<^verbatim>\<open>hpifile.h\<close>, which is not
  among the sources. The spec names the four signatures by their role only (container
  signature, directory subtype, save game, newer major version); the values are those of
  the HAPI format, and the theorems use nothing of them but that they differ. The spec
  gives the chunk count as the size divided by a fixed chunk unit, rounded up; with the
  shift count 16 of the source, \<^verbatim>\<open>bitdiv\<close> and \<^verbatim>\<open>bitmod\<close> are division and
  remainder by \<open>2 ^ 16\<close>. Parent paths are joined with a slash.
\<close>

definition HAPI_MAGIC :: u32 where "HAPI_MAGIC = 0x49504148"
definition HAPI_VERSION_MAGIC :: u32 where "HAPI_VERSION_MAGIC = 0x00010000"
definition BANK_MAGIC :: u32 where "BANK_MAGIC = 0x4B4E4142"
definition HAPI2_VERSION_MAGIC :: u32 where "HAPI2_VERSION_MAGIC = 0x00020000"

definition PATHSEPARATOR :: string where "PATHSEPARATOR = ''/''"

definition bitdiv :: "u32 \<Rightarrow> nat \<Rightarrow> u32" where
  "bitdiv x y = drop_bit y x"

definition bitmod :: "u32 \<Rightarrow> nat \<Rightarrow> u32" where
  "bitmod x y = take_bit y x"

text \<open>
  What the functions write to \<^verbatim>\<open>std::cerr\<close>, one constructor for each message of the
  source (the file name that \<^verbatim>\<open>validate\<close> prints in front is left out), and the
  exception \<^verbatim>\<open>std::runtime_error\<close> with its text.
\<close>

datatype diagnostic =
    Invalid_HAPI_signature u32
  | Bank_subtype_looks_like_saved_game u32
  | HAPIv2_not_supported
  | Invalid_bank_subtype_signature u32
  | HPIentry_does_not_match
  | HPIentry_is_a_directory

datatype exn = Runtime_error string

subsection \<open>fileinfo\<close>

text \<open>
  \<^verbatim>\<open>fileinfo\<close> reads the data offset and the data size at the cursor, allocates the
  entry and appends its pointer to the flat list. Its parameter \<^verbatim>\<open>offset\<close> is not
  used by the source.
\<close>

definition fileinfo :: "string \<Rightarrow> string \<Rightarrow> u32 \<Rightarrow> hpifile \<Rightarrow> nat \<times> hpifile" where
  "fileinfo parentname nm offset h =
     (let (doff, f1) = readint (stream h);
          (dsize, f2) = readint f1;
          ret = length (heap h)
      in (ret, h\<lparr>stream := f2,
                 heap := heap h @ [new_hpientry (self h) parentname nm doff dsize],
                 flatlist := flatlist h @ [ret]\<rparr>))"

subsection \<open>dirinfo\<close>

text \<open>
  \<^verbatim>\<open>dirinfo\<close> calls itself for every subdirectory record, and nothing in the source
  bounds the depth: on an archive whose directory records form a cycle the recursion does
  not end. The first argument bounds the depth of the recursion; \<open>None\<close> says that the
  bound was reached. \<open>Some (Inl e)\<close> is the exception \<open>e\<close> leaving the function,
  \<open>Some (Inr (p, h))\<close> the normal return of the pointer \<open>p\<close> in the state \<open>h\<close>.

  \<open>dirinfo_loop\<close> is the \<^verbatim>\<open>for\<close> loop of \<^verbatim>\<open>dirinfo\<close>; its third argument is
  the number of records still to read, \<^verbatim>\<open>entries - i\<close>. (The counter \<^verbatim>\<open>i\<close> of the
  source is an \<^verbatim>\<open>int\<close> compared with the unsigned \<^verbatim>\<open>entries\<close>, so the loop makes
  \<^verbatim>\<open>entries\<close> iterations.)
\<close>

fun dirinfo :: "nat \<Rightarrow> string \<Rightarrow> string \<Rightarrow> u32 \<Rightarrow> hpifile \<Rightarrow> (exn + nat \<times> hpifile) option"
  and dirinfo_loop ::
    "nat \<Rightarrow> string \<Rightarrow> nat \<Rightarrow> nat list \<Rightarrow> hpifile \<Rightarrow> (exn + nat list \<times> hpifile) option"
where
  "dirinfo 0 parentname dirname offset h = None"
| "dirinfo (Suc d) parentname dirname offset h =
     (let newparent = (if parentname = [] then dirname
                       else parentname @ PATHSEPARATOR @ dirname);
          f1 = seek offset (stream h);
          (entries, f2) = readint f1;
          (unknown, f3) = readint f2
      in case dirinfo_loop d newparent (unat entries) [] (h\<lparr>stream := f3\<rparr>) of
           None \<Rightarrow> None
         | Some (Inl e) \<Rightarrow> Some (Inl e)
         | Some (Inr (listing, h')) \<Rightarrow>
             (let ret = length (heap h');
                  entry = new_hpientry (self h') parentname dirname 0 0;
                  entry = entry\<lparr>directory := True\<rparr>;
                  entry = entry\<lparr>subdir := listing\<rparr>
              in Some (Inr (ret, h'\<lparr>heap := heap h' @ [entry],
                                     flatlist := flatlist h' @ [ret]\<rparr>))))"
| "dirinfo_loop d newparent 0 listing h = Some (Inr (listing, h))"
| "dirinfo_loop d newparent (Suc k) listing h =
     (let (nameoffset, f1) = readint (stream h);
          (infooffset, f2) = readint f1;
          (entrytype, f3) = read f2;
          currentpos = tellg f3;
          f4 = seek nameoffset f3;
          (itemname, f5) = readstring f4;
          f6 = seek infooffset f5;
          h6 = h\<lparr>stream := f6\<rparr>
      in if entrytype = 0 then
           (case fileinfo newparent itemname infooffset h6 of
              (p, h7) \<Rightarrow>
                dirinfo_loop d newparent k (listing @ [p])
                  (h7\<lparr>stream := seek currentpos (stream h7)\<rparr>))
         else if entrytype = 1 then
           (case dirinfo d newparent itemname infooffset h6 of
              None \<Rightarrow> None
            | Some (Inl e) \<Rightarrow> Some (Inl e)
            | Some (Inr (p, h7)) \<Rightarrow>
                dirinfo_loop d newparent k (listing @ [p])
                  (h7\<lparr>stream := seek currentpos (stream h7)\<rparr>))
         else Some (Inl (Runtime_error ''Unknown entry type'')))"

subsection \<open>validate\<close>

text \<open>
  \<^verbatim>\<open>validate\<close> returns the archive object and what it wrote to \<^verbatim>\<open>std::cerr\<close>. An
  exception of \<^verbatim>\<open>dirinfo\<close> is not caught: it leaves \<^verbatim>\<open>validate\<close> and the
  constructor that called it, so that no object exists afterwards.
\<close>

definition validate :: "nat \<Rightarrow> hpifile \<Rightarrow> (exn + hpifile \<times> diagnostic list) option" where
  "validate d h =
     (let h = h\<lparr>valid := False\<rparr>;
          (m1, f1) = readint (stream h);
          h = h\<lparr>header_hapimagic := m1, stream := f1\<rparr>
      in if header_hapimagic h \<noteq> HAPI_MAGIC then
           Some (Inr (h, [Invalid_HAPI_signature (header_hapimagic h)]))
         else
           (let (m2, f2) = readint (stream h);
                h = h\<lparr>header_bankmagic := m2, stream := f2\<rparr>
            in if header_bankmagic h \<noteq> HAPI_VERSION_MAGIC then
                 (if header_bankmagic h = BANK_MAGIC then
                    Some (Inr (h, [Bank_subtype_looks_like_saved_game (header_bankmagic h)]))
                  else if header_bankmagic h = HAPI2_VERSION_MAGIC then
                    Some (Inr (h, [HAPIv2_not_supported]))
                  else
                    Some (Inr (h, [Invalid_bank_subtype_signature (header_bankmagic h)])))
               else
                 (let (m3, f3) = readint (stream h);
                      (m4, f4) = readint f3;
                      (m5, f5) = readint f4;
                      h = h\<lparr>header_offset := m3, header_key := m4, header_diroffset := m5,
                            stream := setkey m4 f5\<rparr>;
                      h = h\<lparr>valid := True\<rparr>
                  in case dirinfo d [] [] (header_diroffset h) h of
                       None \<Rightarrow> None
                     | Some (Inl e) \<Rightarrow> Some (Inl e)
                     | Some (Inr (p, h')) \<Rightarrow>
                         Some (Inr (h'\<lparr>flatlist := flatlist h' @ [p]\<rparr>, [])))))"

text \<open>
  The constructors \<^verbatim>\<open>hpifile(fname)\<close>: the object at address \<open>a\<close> is created with
  an empty flat list, the stream \<open>f\<close> that opening the path gives, and \<^verbatim>\<open>validate\<close>
  runs on it. (The header members are not initialised by the source before
  \<^verbatim>\<open>validate\<close> assigns them; the model starts them at zero.)
\<close>

definition fresh_hpifile :: "nat \<Rightarrow> scrambledfile \<Rightarrow> hpifile" where
  "fresh_hpifile a f =
     \<lparr>self = a, stream = f, valid = False, header_hapimagic = 0, header_bankmagic = 0,
      header_offset = 0, header_key = 0, header_diroffset = 0, flatlist = [], heap = []\<rparr>"

definition hpifile_new :: "nat \<Rightarrow> nat \<Rightarrow> scrambledfile \<Rightarrow> (exn + hpifile \<times> diagnostic list) option" where
  "hpifile_new d a f = validate d (fresh_hpifile a f)"

subsection \<open>getdata\<close>

text \<open>
  The first loop of \<^verbatim>\<open>getdata\<close> reads the table of chunk sizes.
\<close>

fun read_chunksizes :: "nat \<Rightarrow> scrambledfile \<Rightarrow> u32 list \<times> scrambledfile" where
  "read_chunksizes 0 f = ([], f)"
| "read_chunksizes (Suc n) f =
     (let (c, f1) = readint f;
          (cs, f2) = read_chunksizes n f1
      in (c # cs, f2))"

text \<open>
  \<^verbatim>\<open>readall(&data[j])\<close> writes the decompressed bytes into the caller's buffer from
  index \<open>j\<close> on. The buffer is a list; where C would write past the end of the caller's
  allocation, the list grows.
\<close>

definition write_at :: "u8 list \<Rightarrow> nat \<Rightarrow> u8 list \<Rightarrow> u8 list" where
  "write_at data j out = take j data @ out @ drop (j + length out) data"

text \<open>
  The second loop, over the chunk sizes still to process. \<open>Inl\<close> is the
  \<^verbatim>\<open>return 0\<close> of the \<^verbatim>\<open>else\<close> branch (with the buffer as the chunks before have
  left it), \<open>Inr\<close> the end of the loop with the counter \<^verbatim>\<open>j\<close>. The counter is an
  \<^verbatim>\<open>int\<close> that the source adds to and returns as \<^verbatim>\<open>uint32_t\<close>, hence a 32-bit
  word here.
\<close>

fun getdata_chunks ::
  "sqshstream \<Rightarrow> scrambledfile \<Rightarrow> u32 \<Rightarrow> u32 list \<Rightarrow> u32 \<Rightarrow> u8 list \<Rightarrow>
     (u8 list \<times> scrambledfile) + (u32 \<times> u8 list \<times> scrambledfile)" where
  "getdata_chunks sqsh f chunkoffset [] j data = Inr (j, data, f)"
| "getdata_chunks sqsh f chunkoffset (chunksize # rest) j data =
     (let (ss, f') = substream f (chunkoffset + j) chunksize
      in if sqsh_valid sqsh ss then
           (let out = sqsh_readall sqsh ss
            in getdata_chunks sqsh f' chunkoffset rest (j + of_nat (length out))
                 (write_at data (unat j) out))
         else Inl (data, f'))"

definition chunknum_of :: "hpientry \<Rightarrow> u32" where
  "chunknum_of he = bitdiv (he_size he) 16 + (if bitmod (he_size he) 16 \<noteq> 0 then 1 else 0)"

text \<open>
  \<^verbatim>\<open>getdata\<close> returns the number of bytes read; the model returns with it the buffer,
  the archive object and what was written to \<^verbatim>\<open>std::cerr\<close>.
\<close>

definition getdata ::
  "sqshstream \<Rightarrow> hpifile \<Rightarrow> hpientry \<Rightarrow> u8 list \<Rightarrow> u32 \<times> u8 list \<times> hpifile \<times> diagnostic list" where
  "getdata sqsh h he data =
     (if he_file he \<noteq> self h then (0, data, h, [HPIentry_does_not_match])
      else if directory he then (0, data, h, [HPIentry_is_a_directory])
      else
        (let chunknum = chunknum_of he;
             f1 = seek (he_offset he) (stream h);
             (chunksizes, f2) = read_chunksizes (unat chunknum) f1;
             chunkoffset = he_offset he + chunknum * 4
         in case getdata_chunks sqsh f2 chunkoffset chunksizes 0 data of
              Inl (data', f') \<Rightarrow> (0, data', h\<lparr>stream := f'\<rparr>, [])
            | Inr (j, data', f') \<Rightarrow> (j, data', h\<lparr>stream := f'\<rparr>, [])))"

subsection \<open>Names for the parts of a directory block and of the header\<close>

text \<open>
  The values that one iteration of the loop of \<^verbatim>\<open>dirinfo\<close> reads at the cursor of
  \<open>h\<close>: the three fields of the record, the cursor saved after them, the name, and the
  state in which the child is built (after the two seeks).
\<close>

definition record_nameoffset :: "hpifile \<Rightarrow> u32" where
  "record_nameoffset h = fst (readint (stream h))"

definition record_infooffset :: "hpifile \<Rightarrow> u32" where
  "record_infooffset h = fst (readint (snd (readint (stream h))))"

definition record_entrytype :: "hpifile \<Rightarrow> u8" where
  "record_entrytype h = fst (read (snd (readint (snd (readint (stream h))))))"

definition record_currentpos :: "hpifile \<Rightarrow> u32" where
  "record_currentpos h = tellg (snd (read (snd (readint (snd (readint (stream h)))))))"

definition record_itemname :: "hpifile \<Rightarrow> string" where
  "record_itemname h =
     fst (readstring (seek (record_nameoffset h)
            (snd (read (snd (readint (snd (readint (stream h)))))))))"

definition record_child :: "hpifile \<Rightarrow> hpifile" where
  "record_child h =
     h\<lparr>stream := seek (record_infooffset h)
          (snd (readstring (seek (record_nameoffset h)
             (snd (read (snd (readint (snd (readint (stream h))))))))))\<rparr>"

text \<open>\<^verbatim>\<open>file->seek(currentpos)\<close> at the end of the iteration.\<close>

definition restore :: "u32 \<Rightarrow> hpifile \<Rightarrow> hpifile" where
  "restore pos h = h\<lparr>stream := seek pos (stream h)\<rparr>"

text \<open>
  One iteration of the loop, from the read of the record to the seek back: the pointer it
  appends to \<^verbatim>\<open>listing\<close> and the state in which the next iteration starts.
  Lemma \<open>dirinfo_loop_step\<close> below shows that \<open>dirinfo_loop\<close> is the repetition of
  this step.
\<close>

definition record_step :: "nat \<Rightarrow> string \<Rightarrow> hpifile \<Rightarrow> (exn + nat \<times> hpifile) option" where
  "record_step d newparent h =
     (if record_entrytype h = 0 then
        (case fileinfo newparent (record_itemname h) (record_infooffset h) (record_child h) of
           (p, h7) \<Rightarrow> Some (Inr (p, restore (record_currentpos h) h7)))
      else if record_entrytype h = 1 then
        (case dirinfo d newparent (record_itemname h) (record_infooffset h) (record_child h) of
           None \<Rightarrow> None
         | Some (Inl e) \<Rightarrow> Some (Inl e)
         | Some (Inr (p, h7)) \<Rightarrow> Some (Inr (p, restore (record_currentpos h) h7)))
      else Some (Inl (Runtime_error ''Unknown entry type'')))"

text \<open>
  The parts of \<^verbatim>\<open>dirinfo\<close> outside its loop: the path handed to the children, the
  number of records read at \<open>off\<close>, the state in which the loop starts, and the entry
  that is allocated after the loop.
\<close>

definition newparent_of :: "string \<Rightarrow> string \<Rightarrow> string" where
  "newparent_of pn dn = (if pn = [] then dn else pn @ PATHSEPARATOR @ dn)"

definition dir_entries :: "u32 \<Rightarrow> hpifile \<Rightarrow> u32" where
  "dir_entries off h = fst (readint (seek off (stream h)))"

definition dir_start :: "u32 \<Rightarrow> hpifile \<Rightarrow> hpifile" where
  "dir_start off h = h\<lparr>stream := snd (readint (snd (readint (seek off (stream h)))))\<rparr>"

definition dir_entry :: "nat \<Rightarrow> string \<Rightarrow> string \<Rightarrow> nat list \<Rightarrow> hpientry" where
  "dir_entry a pn dn listing =
     \<lparr>he_file = a, he_parentname = pn, he_name = dn, he_offset = 0, he_size = 0,
      directory = True, subdir = listing\<rparr>"

text \<open>
  The first two header fields as \<^verbatim>\<open>validate\<close> reads them, the object as it leaves
  \<^verbatim>\<open>validate\<close> when the first or the second signature is rejected, and the object
  that \<^verbatim>\<open>validate\<close> hands to \<^verbatim>\<open>dirinfo\<close> when both are accepted.
\<close>

definition header_magic1 :: "hpifile \<Rightarrow> u32" where
  "header_magic1 h = fst (readint (stream h))"

definition header_magic2 :: "hpifile \<Rightarrow> u32" where
  "header_magic2 h = fst (readint (snd (readint (stream h))))"

definition rejected1 :: "hpifile \<Rightarrow> hpifile" where
  "rejected1 h =
     h\<lparr>valid := False, header_hapimagic := header_magic1 h,
       stream := snd (readint (stream h))\<rparr>"

definition rejected2 :: "hpifile \<Rightarrow> hpifile" where
  "rejected2 h =
     h\<lparr>valid := False, header_hapimagic := header_magic1 h,
       header_bankmagic := header_magic2 h,
       stream := snd (readint (snd (readint (stream h))))\<rparr>"

definition header_read :: "hpifile \<Rightarrow> hpifile" where
  "header_read h =
     (let f2 = snd (readint (snd (readint (stream h))));
          f3 = snd (readint f2);
          f4 = snd (readint f3);
          f5 = snd (readint f4)
      in h\<lparr>valid := True, header_hapimagic := header_magic1 h,
            header_bankmagic := header_magic2 h, header_offset := fst (readint f2),
            header_key := fst (readint f3), header_diroffset := fst (readint f4),
            stream := setkey (fst (readint f3)) f5\<rparr>)"

text \<open>
  The chunk-size table and the start of the compressed payload, as \<^verbatim>\<open>getdata\<close>
  computes them for an entry.
\<close>

definition chunk_table :: "hpifile \<Rightarrow> hpientry \<Rightarrow> u32 list \<times> scrambledfile" where
  "chunk_table h he =
     read_chunksizes (unat (chunknum_of he)) (seek (he_offset he) (stream h))"

definition chunkoffset_of :: "hpientry \<Rightarrow> u32" where
  "chunkoffset_of he = he_offset he + chunknum_of he * 4"


subsection \<open>Growth of the store and of the flat list\<close>

text \<open>
  Every allocation is followed by the append of the new pointer to the flat list, so the
  walk appends to the flat list the addresses of the entries it allocates, in order.
\<close>

definition grows :: "hpifile \<Rightarrow> hpifile \<Rightarrow> bool" where
  "grows h h' \<longleftrightarrow>
     length (heap h) \<le> length (heap h') \<and> take (length (heap h)) (heap h') = heap h \<and>
     flatlist h' = flatlist h @ [length (heap h) ..< length (heap h')]"

text \<open>The directory entries of a store carry no offset and no size.\<close>

definition dirs_zero :: "hpientry list \<Rightarrow> bool" where
  "dirs_zero es \<longleftrightarrow> (\<forall>e\<in>set es. directory e \<longrightarrow> he_offset e = 0 \<and> he_size e = 0)"


subsection \<open>Concrete streams, archives and a codec\<close>

text \<open>
  A stream without transform over a list of bytes: reads beyond the end give 0, a string
  runs up to the next zero byte and consumes it.
\<close>

definition plain_stream :: "u8 list \<Rightarrow> scrambledfile" where
  "plain_stream bs =
     \<lparr>byte_at = (\<lambda>k p. if p < length bs then bs ! p else 0),
      string_at = (\<lambda>k p. (map (\<lambda>b. char_of (unat b)) (takeWhile (\<lambda>b. b \<noteq> 0) (drop p bs)),
                           length (takeWhile (\<lambda>b. b \<noteq> 0) (drop p bs)) + 1)),
      cursor = 0, key = 0\<rparr>"

text \<open>
  An archive of 47 bytes: the header (root directory at 20), the root directory with one
  record (at 28: name at 37, info at 39, type 0), the name \<open>a\<close>, and the file info (data
  at 47, size 3).
\<close>

definition one_file_archive :: "u8 list" where
  "one_file_archive =
     [0x48, 0x41, 0x50, 0x49,  0, 0, 1, 0,  0, 0, 0, 0,  0, 0, 0, 0,  20, 0, 0, 0,
      1, 0, 0, 0,  0, 0, 0, 0,
      37, 0, 0, 0,  39, 0, 0, 0,  0,
      0x61, 0,
      47, 0, 0, 0,  3, 0, 0, 0]"

definition one_file_opened :: hpifile where
  "one_file_opened =
     \<lparr>self = 7, stream = (plain_stream one_file_archive)\<lparr>cursor := 37\<rparr>, valid = True,
      header_hapimagic = 0x49504148, header_bankmagic = 0x10000, header_offset = 0,
      header_key = 0, header_diroffset = 20, flatlist = [0, 1, 1],
      heap = [\<lparr>he_file = 7, he_parentname = [], he_name = ''a'', he_offset = 47,
                he_size = 3, directory = False, subdir = []\<rparr>,
              \<lparr>he_file = 7, he_parentname = [], he_name = [], he_offset = 0,
                he_size = 0, directory = True, subdir = [0]\<rparr>]\<rparr>"

text \<open>
  An archive whose root directory (at 20) has one record, the subdirectory \<open>d\<close> (at 39);
  the subdirectory has two records (at 47 and 56) for the same name and file info, the
  first of type 0 and the second of type 7.
\<close>

definition bad_type_archive :: "u8 list" where
  "bad_type_archive =
     [0x48, 0x41, 0x50, 0x49,  0, 0, 1, 0,  0, 0, 0, 0,  0, 0, 0, 0,  20, 0, 0, 0,
      1, 0, 0, 0,  0, 0, 0, 0,
      37, 0, 0, 0,  39, 0, 0, 0,  1,
      0x64, 0,
      2, 0, 0, 0,  0, 0, 0, 0,
      65, 0, 0, 0,  67, 0, 0, 0,  0,
      65, 0, 0, 0,  67, 0, 0, 0,  7,
      0x61, 0,
      75, 0, 0, 0,  0, 0, 0, 0]"

text \<open>
  States of the walk over \<open>bad_type_archive\<close>: the object after the header, at the
  first record of the subdirectory, and at its second record.
\<close>

definition bad_root :: hpifile where
  "bad_root = header_read (fresh_hpifile 7 (plain_stream bad_type_archive))"

definition bad_sub_first :: hpifile where
  "bad_sub_first = dir_start 39 (record_child (dir_start 20 bad_root))"

definition bad_sub_second :: hpifile where
  "bad_sub_second =
     restore (record_currentpos bad_sub_first)
       (snd (fileinfo ''d'' (record_itemname bad_sub_first) (record_infooffset bad_sub_first)
               (record_child bad_sub_first)))"

text \<open>
  An archive whose root directory (at 20) has one record (at 28), the subdirectory \<open>d\<close>
  at 39, which has no records; and the state in which the loop of the root directory
  starts.
\<close>

definition nested_archive :: "u8 list" where
  "nested_archive =
     [0x48, 0x41, 0x50, 0x49,  0, 0, 1, 0,  0, 0, 0, 0,  0, 0, 0, 0,  20, 0, 0, 0,
      1, 0, 0, 0,  0, 0, 0, 0,
      37, 0, 0, 0,  39, 0, 0, 0,  1,
      0x64, 0,
      0, 0, 0, 0,  0, 0, 0, 0]"

definition nested_loop :: hpifile where
  "nested_loop = dir_start 20 (header_read (fresh_hpifile 7 (plain_stream nested_archive)))"

text \<open>Headers of eight bytes with a wrong first or second signature.\<close>

definition no_hapi_header :: "u8 list" where
  "no_hapi_header = [0x50, 0x4B, 3, 4,  0, 0, 1, 0]"

definition savegame_header :: "u8 list" where
  "savegame_header = [0x48, 0x41, 0x50, 0x49,  0x42, 0x41, 0x4E, 0x4B]"

definition hapi2_header :: "u8 list" where
  "hapi2_header = [0x48, 0x41, 0x50, 0x49,  0, 0, 2, 0]"

definition odd_header :: "u8 list" where
  "odd_header = [0x48, 0x41, 0x50, 0x49,  0, 0, 3, 0]"

text \<open>
  A codec for the examples: a view is a valid chunk if its first byte is \<open>0x53\<close>, and it
  decompresses to the bytes after the first.
\<close>

definition stored_codec :: sqshstream where
  "stored_codec =
     \<lparr>sqsh_valid = (\<lambda>ss. ss_bytes ss \<noteq> [] \<and> hd (ss_bytes ss) = 0x53),
      sqsh_readall = (\<lambda>ss. tl (ss_bytes ss))\<rparr>"

text \<open>
  A stream that holds, from position 0, a chunk-size table with the two sizes 3 and 3 and
  two chunks of the example codec back to back (at 8 and at 11); an archive object at
  address 7 over this stream, and below an entry of it of 65537 bytes with its table at 0
  (two chunks).
\<close>

definition chunk_bytes :: "u8 list" where
  "chunk_bytes = [3, 0, 0, 0,  3, 0, 0, 0,  0x53, 0x0A, 0x0B,  0x53, 0x0C, 0x0D]"

definition chunk_hpifile :: hpifile where
  "chunk_hpifile = fresh_hpifile 7 (plain_stream chunk_bytes)"




text \<open>
  A second codec for the examples, with long outputs: a view is a valid chunk if it has
  four bytes and the first is \<open>0x53\<close>; it decompresses to as many zero bytes as the
  other three bytes say, as a little-endian number.
\<close>

definition rle_codec :: sqshstream where
  "rle_codec =
     \<lparr>sqsh_valid = (\<lambda>ss. length (ss_bytes ss) = 4 \<and> hd (ss_bytes ss) = 0x53),
      sqsh_readall = (\<lambda>ss. replicate (unat (ss_bytes ss ! 1) + 256 * unat (ss_bytes ss ! 2)
                                        + 65536 * unat (ss_bytes ss ! 3)) 0)\<rparr>"

text \<open>
  A well-formed archive for this codec: its file has size 65537, the table at 47 gives the
  sizes 4 and 4, and the two chunks lie back to back at 55 and at 59; they decompress to
  65536 bytes and to 1 byte. Then the object that opening it gives, and its file entry.
\<close>

definition wf_archive :: "u8 list" where
  "wf_archive =
     [0x48, 0x41, 0x50, 0x49,  0, 0, 1, 0,  0, 0, 0, 0,  0, 0, 0, 0,  20, 0, 0, 0,
      1, 0, 0, 0,  0, 0, 0, 0,
      37, 0, 0, 0,  39, 0, 0, 0,  0,
      0x61, 0,
      47, 0, 0, 0,  1, 0, 1, 0,
      4, 0, 0, 0,  4, 0, 0, 0,
      0x53, 0, 0, 1,
      0x53, 1, 0, 0]"

definition wf_opened :: hpifile where
  "wf_opened =
     \<lparr>self = 7, stream = (plain_stream wf_archive)\<lparr>cursor := 37\<rparr>, valid = True,
      header_hapimagic = 0x49504148, header_bankmagic = 0x10000, header_offset = 0,
      header_key = 0, header_diroffset = 20, flatlist = [0, 1, 1],
      heap = [\<lparr>he_file = 7, he_parentname = [], he_name = ''a'', he_offset = 47,
                he_size = 65537, directory = False, subdir = []\<rparr>,
              \<lparr>he_file = 7, he_parentname = [], he_name = [], he_offset = 0,
                he_size = 0, directory = True, subdir = [0]\<rparr>]\<rparr>"

definition wf_entry :: hpientry where
  "wf_entry = heap wf_opened ! 0"

text \<open>
  A stream of more than 4 GiB: the header names \<open>0xFFFFFFEF\<close> as the offset of the root
  directory, the directory has one record, and all other bytes are 0, so the record (a
  file with name offset 0 and info offset 0) occupies the nine bytes before position
  \<open>2 ^ 32\<close>. Every string read gives the empty name. Then the state in which the loop of
  the root directory starts, and the state after its one iteration.
\<close>

definition far_stream :: scrambledfile where
  "far_stream =
     \<lparr>byte_at = (\<lambda>k p. if p < 20 then
                            [0x48, 0x41, 0x50, 0x49,  0, 0, 1, 0,  0, 0, 0, 0,  0, 0, 0, 0,
                             0xEF, 0xFF, 0xFF, 0xFF] ! p
                          else if p = 4294967279 then 1 else 0),
      string_at = (\<lambda>k p. ([], 1)),
      cursor = 0, key = 0\<rparr>"

definition far_loop :: hpifile where
  "far_loop = dir_start 0xFFFFFFEF (header_read (fresh_hpifile 7 far_stream))"

definition far_next :: hpifile where
  "far_next =
     restore (record_currentpos far_loop)
       (snd (fileinfo [] (record_itemname far_loop) (record_infooffset far_loop)
               (record_child far_loop)))"

text \<open>A second archive object, at address 8.\<close>

definition other_hpifile :: hpifile where
  "other_hpifile = fresh_hpifile 8 (plain_stream chunk_bytes)"

definition two_chunk_entry :: hpientry where
  "two_chunk_entry = new_hpientry 7 [] ''big'' 0 65537"

section \<open>Properties\<close>

subsection \<open>The stream operations\<close>

lemma read_frame [simp]:
  "cursor (snd (read f)) = cursor f + 1"
  "key (snd (read f)) = key f"
  "byte_at (snd (read f)) = byte_at f"
  "string_at (snd (read f)) = string_at f"
  by (simp_all add: read_def)

lemma readint_frame [simp]:
  "cursor (snd (readint f)) = cursor f + 4"
  "key (snd (readint f)) = key f"
  "byte_at (snd (readint f)) = byte_at f"
  "string_at (snd (readint f)) = string_at f"
  by (simp_all add: readint_def read_def case_prod_beta)

lemma seek_frame [simp]:
  "cursor (seek p f) = unat p"
  "key (seek p f) = key f"
  "byte_at (seek p f) = byte_at f"
  "string_at (seek p f) = string_at f"
  by (simp_all add: seek_def)

lemma readstring_frame [simp]:
  "key (snd (readstring f)) = key f"
  "byte_at (snd (readstring f)) = byte_at f"
  "string_at (snd (readstring f)) = string_at f"
  by (simp_all add: readstring_def case_prod_beta)

subsection \<open>The functions in terms of the named parts\<close>

lemma fileinfo_eq:
  "fileinfo pn nm off h =
     (length (heap h),
      h\<lparr>stream := snd (readint (snd (readint (stream h)))),
        heap := heap h @ [new_hpientry (self h) pn nm (fst (readint (stream h)))
                            (fst (readint (snd (readint (stream h)))))],
        flatlist := flatlist h @ [length (heap h)]\<rparr>)"
  by (simp add: fileinfo_def Let_def case_prod_beta)

lemma dirinfo_loop_step:
  "dirinfo_loop d np (Suc k) l h =
     (case record_step d np h of
        None \<Rightarrow> None
      | Some (Inl e) \<Rightarrow> Some (Inl e)
      | Some (Inr (p, h1)) \<Rightarrow> dirinfo_loop d np k (l @ [p]) h1)"
  by (simp add: record_step_def record_nameoffset_def record_infooffset_def
        record_entrytype_def record_currentpos_def record_itemname_def record_child_def
        restore_def Let_def case_prod_beta split: option.split sum.split)

lemma dirinfo_Suc:
  "dirinfo (Suc d) pn dn off h =
     (case dirinfo_loop d (newparent_of pn dn) (unat (dir_entries off h)) [] (dir_start off h) of
        None \<Rightarrow> None
      | Some (Inl e) \<Rightarrow> Some (Inl e)
      | Some (Inr (listing, h')) \<Rightarrow>
          Some (Inr (length (heap h'),
                     h'\<lparr>heap := heap h' @ [dir_entry (self h') pn dn listing],
                        flatlist := flatlist h' @ [length (heap h')]\<rparr>)))"
  by (simp add: newparent_of_def dir_entries_def dir_start_def dir_entry_def new_hpientry_def
        Let_def case_prod_beta split: option.split sum.split)

declare dirinfo.simps(2) [simp del] dirinfo_loop.simps(2) [simp del]

lemma validate_rejected1:
  "header_magic1 h \<noteq> HAPI_MAGIC \<Longrightarrow>
     validate d h = Some (Inr (rejected1 h, [Invalid_HAPI_signature (header_magic1 h)]))"
  by (simp add: validate_def header_magic1_def rejected1_def Let_def case_prod_beta)

lemma validate_rejected2:
  "header_magic1 h = HAPI_MAGIC \<Longrightarrow> header_magic2 h \<noteq> HAPI_VERSION_MAGIC \<Longrightarrow>
     validate d h =
       Some (Inr (rejected2 h,
         [if header_magic2 h = BANK_MAGIC
            then Bank_subtype_looks_like_saved_game (header_magic2 h)
          else if header_magic2 h = HAPI2_VERSION_MAGIC then HAPIv2_not_supported
          else Invalid_bank_subtype_signature (header_magic2 h)]))"
  by (simp add: validate_def header_magic1_def header_magic2_def rejected2_def Let_def
        case_prod_beta)

lemma validate_accepted:
  "header_magic1 h = HAPI_MAGIC \<Longrightarrow> header_magic2 h = HAPI_VERSION_MAGIC \<Longrightarrow>
     validate d h =
       (case dirinfo d [] [] (header_diroffset (header_read h)) (header_read h) of
          None \<Rightarrow> None
        | Some (Inl e) \<Rightarrow> Some (Inl e)
        | Some (Inr (p, h')) \<Rightarrow> Some (Inr (h'\<lparr>flatlist := flatlist h' @ [p]\<rparr>, [])))"
  by (cases h)
    (simp add: validate_def header_magic1_def header_magic2_def header_read_def Let_def
       case_prod_beta split: option.split sum.split)

subsection \<open>A rule for relations between the state before and after the walk\<close>

lemma dirinfo_loop_rel:
  assumes D: "\<And>pn dn off h p h'. dirinfo d pn dn off h = Some (Inr (p, h')) \<Longrightarrow> R h h'"
    and rfl: "\<And>h. R h h"
    and trans: "\<And>a b c. R a b \<Longrightarrow> R b c \<Longrightarrow> R a c"
    and strm: "\<And>h f. R h (h\<lparr>stream := f\<rparr>)"
    and fil: "\<And>np nm off h. R h (snd (fileinfo np nm off h))"
  shows "dirinfo_loop d np k l h = Some (Inr (l', h')) \<Longrightarrow> R h h'"
proof (induction k arbitrary: l h)
  case 0
  then show ?case by (simp add: rfl)
next
  case (Suc k)
  from Suc.prems obtain p h1 where
    step: "record_step d np h = Some (Inr (p, h1))"
    and rest: "dirinfo_loop d np k (l @ [p]) h1 = Some (Inr (l', h'))"
    by (simp add: dirinfo_loop_step split: option.splits sum.splits prod.splits)
  have child: "R h (record_child h)"
    unfolding record_child_def by (rule strm)
  have seek_back: "\<And>g. R g (restore (record_currentpos h) g)"
    unfolding restore_def by (rule strm)
  have "R (record_child h) h1"
  proof (cases "record_entrytype h = 0")
    case True
    let ?r = "fileinfo np (record_itemname h) (record_infooffset h) (record_child h)"
    from step True have "h1 = restore (record_currentpos h) (snd ?r)"
      by (simp add: record_step_def case_prod_beta)
    with fil [of "record_child h"] seek_back show ?thesis
      by (blast intro: trans)
  next
    case False
    with step obtain h7 where
      sub: "dirinfo d np (record_itemname h) (record_infooffset h) (record_child h)
            = Some (Inr (p, h7))"
      and h1: "h1 = restore (record_currentpos h) h7"
      by (simp add: record_step_def split: if_splits option.splits sum.splits prod.splits)
    from D [OF sub] seek_back h1 show ?thesis
      by (blast intro: trans)
  qed
  with child Suc.IH [OF rest] show ?case
    by (blast intro: trans)
qed

lemma dirinfo_rel:
  assumes rfl: "\<And>h. R h h"
    and trans: "\<And>a b c. R a b \<Longrightarrow> R b c \<Longrightarrow> R a c"
    and strm: "\<And>h f. R h (h\<lparr>stream := f\<rparr>)"
    and fil: "\<And>np nm off h. R h (snd (fileinfo np nm off h))"
    and dir: "\<And>h pn dn listing.
                R h (h\<lparr>heap := heap h @ [dir_entry (self h) pn dn listing],
                       flatlist := flatlist h @ [length (heap h)]\<rparr>)"
  shows "dirinfo d pn dn off h = Some (Inr (p, h')) \<Longrightarrow> R h h'"
proof (induction d arbitrary: pn dn off h p h')
  case 0
  then show ?case by simp
next
  case (Suc d)
  from Suc.prems obtain listing h1 where
    loop: "dirinfo_loop d (newparent_of pn dn) (unat (dir_entries off h)) [] (dir_start off h)
           = Some (Inr (listing, h1))"
    and h': "h' = h1\<lparr>heap := heap h1 @ [dir_entry (self h1) pn dn listing],
                   flatlist := flatlist h1 @ [length (heap h1)]\<rparr>"
    by (simp add: dirinfo_Suc split: option.splits sum.splits prod.splits) blast
  have "R h (dir_start off h)"
    unfolding dir_start_def by (rule strm)
  moreover have "R (dir_start off h) h1"
    by (rule dirinfo_loop_rel [OF Suc.IH rfl trans strm fil loop])
  moreover have "R h1 h'"
    unfolding h' by (rule dir)
  ultimately show ?case by (blast intro: trans)
qed

lemma dirinfo_loop_rel':
  assumes rfl: "\<And>h. R h h"
    and trans: "\<And>a b c. R a b \<Longrightarrow> R b c \<Longrightarrow> R a c"
    and strm: "\<And>h f. R h (h\<lparr>stream := f\<rparr>)"
    and fil: "\<And>np nm off h. R h (snd (fileinfo np nm off h))"
    and dir: "\<And>h pn dn listing.
                R h (h\<lparr>heap := heap h @ [dir_entry (self h) pn dn listing],
                       flatlist := flatlist h @ [length (heap h)]\<rparr>)"
    and loop: "dirinfo_loop d np k l h = Some (Inr (l', h'))"
  shows "R h h'"
  by (rule dirinfo_loop_rel [OF dirinfo_rel [OF rfl trans strm fil dir] rfl trans strm fil loop])


subsection \<open>Normal returns, taken apart\<close>

lemma dirinfo_Suc_Inr:
  assumes "dirinfo (Suc d) pn dn off h = Some (Inr (p, h'))"
  obtains listing h1 where
    "dirinfo_loop d (newparent_of pn dn) (unat (dir_entries off h)) [] (dir_start off h)
       = Some (Inr (listing, h1))"
    "p = length (heap h1)"
    "h' = h1\<lparr>heap := heap h1 @ [dir_entry (self h1) pn dn listing],
              flatlist := flatlist h1 @ [length (heap h1)]\<rparr>"
proof (cases "dirinfo_loop d (newparent_of pn dn) (unat (dir_entries off h)) [] (dir_start off h)")
  case None
  with assms show ?thesis by (simp add: dirinfo_Suc)
next
  case (Some r)
  show ?thesis
  proof (cases r)
    case (Inl e)
    with Some assms show ?thesis by (simp add: dirinfo_Suc)
  next
    case (Inr lh)
    obtain listing h1 where lh: "lh = (listing, h1)" by (cases lh)
    from assms Some Inr lh have "p = length (heap h1)"
      and "h' = h1\<lparr>heap := heap h1 @ [dir_entry (self h1) pn dn listing],
                    flatlist := flatlist h1 @ [length (heap h1)]\<rparr>"
      by (auto simp: dirinfo_Suc)
    with Some Inr lh that show ?thesis by simp
  qed
qed

lemma dirinfo_loop_Suc_Inr:
  assumes "dirinfo_loop d np (Suc k) l h = Some (Inr r)"
  obtains p h1 where
    "record_step d np h = Some (Inr (p, h1))"
    "dirinfo_loop d np k (l @ [p]) h1 = Some (Inr r)"
proof (cases "record_step d np h")
  case None
  with assms show ?thesis by (simp add: dirinfo_loop_step)
next
  case (Some s)
  show ?thesis
  proof (cases s)
    case (Inl e)
    with Some assms show ?thesis by (simp add: dirinfo_loop_step)
  next
    case (Inr ph)
    obtain p h1 where ph: "ph = (p, h1)" by (cases ph)
    from assms Some Inr ph have "dirinfo_loop d np k (l @ [p]) h1 = Some (Inr r)"
      by (simp add: dirinfo_loop_step)
    with Some Inr ph that show ?thesis by simp
  qed
qed

lemma record_step_Inr:
  assumes "record_step d np h = Some (Inr (p, h1))"
  obtains (isfile) "record_entrytype h = 0"
      "p = length (heap h)"
      "h1 = restore (record_currentpos h)
              (snd (fileinfo np (record_itemname h) (record_infooffset h) (record_child h)))"
    | (isdir) h7 where "record_entrytype h = 1"
      "dirinfo d np (record_itemname h) (record_infooffset h) (record_child h)
         = Some (Inr (p, h7))"
      "h1 = restore (record_currentpos h) h7"
proof (cases "record_entrytype h = 0")
  case True
  with assms have "p = length (heap h)"
    and "h1 = restore (record_currentpos h)
              (snd (fileinfo np (record_itemname h) (record_infooffset h) (record_child h)))"
    by (auto simp: record_step_def case_prod_beta fileinfo_eq record_child_def)
  with True isfile show ?thesis by simp
next
  case False
  show ?thesis
  proof (cases "record_entrytype h = 1")
    case one: True
    let ?r = "dirinfo d np (record_itemname h) (record_infooffset h) (record_child h)"
    show ?thesis
    proof (cases ?r)
      case None
      with assms False one show ?thesis by (simp add: record_step_def)
    next
      case (Some s)
      show ?thesis
      proof (cases s)
        case (Inl e)
        with Some assms False one show ?thesis by (simp add: record_step_def)
      next
        case (Inr ph)
        obtain q h7 where ph: "ph = (q, h7)" by (cases ph)
        from assms False one Some Inr ph have "q = p" and "h1 = restore (record_currentpos h) h7"
          by (auto simp: record_step_def)
        with one Some Inr ph isdir show ?thesis by simp
      qed
    qed
  next
    case other: False
    with assms False show ?thesis by (simp add: record_step_def)
  qed
qed

subsection \<open>What the walk leaves unchanged, and how the store and the flat list grow\<close>

lemma dirinfo_frame:
  assumes "dirinfo d pn dn off h = Some (Inr (p, h'))"
  shows "self h' = self h \<and> valid h' = valid h"
  by (rule dirinfo_rel [where R = "\<lambda>h h'. self h' = self h \<and> valid h' = valid h",
        OF _ _ _ _ _ assms])
     (simp_all add: fileinfo_eq)

lemma dirinfo_loop_frame:
  assumes "dirinfo_loop d np k l h = Some (Inr (l', h'))"
  shows "self h' = self h \<and> valid h' = valid h"
  by (rule dirinfo_loop_rel' [where R = "\<lambda>h h'. self h' = self h \<and> valid h' = valid h",
        OF _ _ _ _ _ assms])
     (simp_all add: fileinfo_eq)

lemma upt_app: "a \<le> b \<Longrightarrow> b \<le> c \<Longrightarrow> [a..<b] @ [b..<c] = [a..<c]"
  by (metis le_Suc_ex upt_add_eq_append)

lemma grows_refl: "grows h h"
  by (simp add: grows_def)

lemma grows_trans: "grows a b \<Longrightarrow> grows b c \<Longrightarrow> grows a c"
proof -
  assume ab: "grows a b" and bc: "grows b c"
  have len: "length (heap a) \<le> length (heap b)" "length (heap b) \<le> length (heap c)"
    using ab bc by (simp_all add: grows_def)
  have "take (length (heap a)) (heap c) = take (length (heap a)) (take (length (heap b)) (heap c))"
    using len by (simp add: min_def)
  also have "\<dots> = heap a"
    using ab bc by (simp add: grows_def)
  finally have tk: "take (length (heap a)) (heap c) = heap a" .
  have "flatlist c = flatlist a @ [length (heap a) ..< length (heap b)]
          @ [length (heap b) ..< length (heap c)]"
    using ab bc by (simp add: grows_def)
  then have "flatlist c = flatlist a @ [length (heap a) ..< length (heap c)]"
    using len by (simp add: upt_app)
  with len tk show ?thesis by (simp add: grows_def)
qed

lemma grows_stream: "grows h (h\<lparr>stream := f\<rparr>)"
  by (simp add: grows_def)

lemma grows_fileinfo: "grows h (snd (fileinfo np nm off h))"
  by (simp add: grows_def fileinfo_eq)

lemma grows_dir:
  "grows h (h\<lparr>heap := heap h @ [e], flatlist := flatlist h @ [length (heap h)]\<rparr>)"
  by (simp add: grows_def)

lemma dirinfo_grows:
  "dirinfo d pn dn off h = Some (Inr (p, h')) \<Longrightarrow> grows h h'"
  by (rule dirinfo_rel [where R = grows, OF grows_refl grows_trans grows_stream
        grows_fileinfo grows_dir])

lemma dirinfo_loop_grows:
  "dirinfo_loop d np k l h = Some (Inr (l', h')) \<Longrightarrow> grows h h'"
  by (rule dirinfo_loop_rel' [where R = grows, OF grows_refl grows_trans grows_stream
        grows_fileinfo grows_dir])

text \<open>The entry that \<^verbatim>\<open>dirinfo\<close> returns is the last one allocated.\<close>

lemma dirinfo_returns:
  assumes "dirinfo d pn dn off h = Some (Inr (p, h'))"
  shows "\<exists>d' listing h1. d = Suc d' \<and>
           dirinfo_loop d' (newparent_of pn dn) (unat (dir_entries off h)) [] (dir_start off h)
             = Some (Inr (listing, h1)) \<and>
           p = length (heap h1) \<and>
           heap h' = heap h1 @ [dir_entry (self h) pn dn listing] \<and>
           flatlist h' = flatlist h1 @ [p]"
proof (cases d)
  case 0
  with assms show ?thesis by simp
next
  case (Suc d')
  with assms have eq: "dirinfo (Suc d') pn dn off h = Some (Inr (p, h'))" by simp
  from eq obtain listing h1 where
    loop: "dirinfo_loop d' (newparent_of pn dn) (unat (dir_entries off h)) [] (dir_start off h)
           = Some (Inr (listing, h1))"
    and p: "p = length (heap h1)"
    and h': "h' = h1\<lparr>heap := heap h1 @ [dir_entry (self h1) pn dn listing],
                   flatlist := flatlist h1 @ [length (heap h1)]\<rparr>"
    by (rule dirinfo_Suc_Inr)
  have "self h1 = self h"
    using dirinfo_loop_frame [OF loop] by (simp add: dir_start_def)
  with Suc loop h' p show ?thesis by simp
qed

lemma dirinfo_pointer:
  assumes "dirinfo d pn dn off h = Some (Inr (p, h'))"
  shows "length (heap h) \<le> p \<and> Suc p = length (heap h') \<and>
         heap h' ! p = dir_entry (self h) pn dn (subdir (heap h' ! p))"
proof -
  from dirinfo_returns [OF assms] obtain d' listing h1 where
    loop: "dirinfo_loop d' (newparent_of pn dn) (unat (dir_entries off h)) [] (dir_start off h)
           = Some (Inr (listing, h1))"
    and p: "p = length (heap h1)"
    and hp: "heap h' = heap h1 @ [dir_entry (self h) pn dn listing]"
    by blast
  have "length (heap h) \<le> length (heap h1)"
    using dirinfo_loop_grows [OF loop] by (simp add: grows_def dir_start_def)
  with p hp show ?thesis by (simp add: dir_entry_def)
qed



subsection \<open>A successful open\<close>

lemma rejected_not_valid [simp]: "\<not> valid (rejected1 h)" "\<not> valid (rejected2 h)"
  by (simp_all add: rejected1_def rejected2_def)

lemma header_read_fields [simp]:
  "valid (header_read h)" "self (header_read h) = self h"
  "heap (header_read h) = heap h" "flatlist (header_read h) = flatlist h"
  by (simp_all add: header_read_def Let_def)

lemma validate_valid:
  assumes "validate d h = Some (Inr (h', msgs))" and "valid h'"
  shows "header_magic1 h = HAPI_MAGIC \<and> header_magic2 h = HAPI_VERSION_MAGIC \<and> msgs = [] \<and>
         (\<exists>p h1. dirinfo d [] [] (header_diroffset (header_read h)) (header_read h)
                    = Some (Inr (p, h1)) \<and>
                  h' = h1\<lparr>flatlist := flatlist h1 @ [p]\<rparr>)"
proof -
  have m1: "header_magic1 h = HAPI_MAGIC"
  proof (rule ccontr)
    assume "header_magic1 h \<noteq> HAPI_MAGIC"
    from validate_rejected1 [OF this, of d] assms show False by simp
  qed
  have m2: "header_magic2 h = HAPI_VERSION_MAGIC"
  proof (rule ccontr)
    assume "header_magic2 h \<noteq> HAPI_VERSION_MAGIC"
    from validate_rejected2 [OF m1 this, of d] assms show False by simp
  qed
  from assms(1) show ?thesis
    by (auto simp: validate_accepted [OF m1 m2] m1 m2 split: option.splits sum.splits)
qed


subsection \<open>The example archives, evaluated\<close>

lemmas walk_eval =
  readint_def read_def seek_def setkey_def tellg_def readstring_def fileinfo_eq
  new_hpientry_def dirinfo_Suc dirinfo_loop_step record_step_def record_nameoffset_def
  record_infooffset_def record_entrytype_def record_currentpos_def record_itemname_def
  record_child_def restore_def newparent_of_def dir_entries_def dir_start_def dir_entry_def
  header_read_def header_magic1_def header_magic2_def fresh_hpifile_def plain_stream_def
  Let_def char_of_def bit_Suc_0_iff

lemma one_file_header:
  "header_magic1 (fresh_hpifile 7 (plain_stream one_file_archive)) = HAPI_MAGIC"
  "header_magic2 (fresh_hpifile 7 (plain_stream one_file_archive)) = HAPI_VERSION_MAGIC"
  "header_diroffset (header_read (fresh_hpifile 7 (plain_stream one_file_archive))) = 20"
  by (simp_all add: walk_eval one_file_archive_def HAPI_MAGIC_def HAPI_VERSION_MAGIC_def)

lemma one_file_walk:
  "dirinfo (Suc (Suc 0)) [] [] 20 (header_read (fresh_hpifile 7 (plain_stream one_file_archive)))
     = Some (Inr (1, one_file_opened\<lparr>flatlist := [0, 1]\<rparr>))"
  by (simp add: walk_eval one_file_archive_def one_file_opened_def)

lemma one_file_archive_opens:
  "hpifile_new (Suc (Suc 0)) 7 (plain_stream one_file_archive) = Some (Inr (one_file_opened, []))"
  unfolding hpifile_new_def
  by (simp add: validate_accepted one_file_header one_file_walk) (simp add: one_file_opened_def)

subsection \<open>The flat list after a successful open\<close>

lemma opened_layout:
  assumes "hpifile_new d a f = Some (Inr (h', msgs))" and "valid h'"
  obtains p h1 where
    "dirinfo d [] [] (header_diroffset (header_read (fresh_hpifile a f)))
       (header_read (fresh_hpifile a f)) = Some (Inr (p, h1))"
    "heap h' = heap h1" "Suc p = length (heap h1)"
    "flatlist h1 = [0..<Suc p]" "flatlist h' = [0..<Suc p] @ [p]"
    "heap h1 ! p = dir_entry a [] [] (subdir (heap h1 ! p))"
proof -
  let ?h0 = "header_read (fresh_hpifile a f)"
  from validate_valid [OF assms [unfolded hpifile_new_def]] obtain p h1 where
    walk: "dirinfo d [] [] (header_diroffset ?h0) ?h0 = Some (Inr (p, h1))"
    and h': "h' = h1\<lparr>flatlist := flatlist h1 @ [p]\<rparr>"
    by blast
  have empty: "heap ?h0 = []" "flatlist ?h0 = []" "self ?h0 = a"
    by (simp_all add: fresh_hpifile_def)
  from dirinfo_pointer [OF walk] empty
  have p: "Suc p = length (heap h1)"
    and e: "heap h1 ! p = dir_entry a [] [] (subdir (heap h1 ! p))"
    by simp_all
  from dirinfo_grows [OF walk] empty p have fl: "flatlist h1 = [0..<Suc p]"
    by (simp add: grows_def)
  show ?thesis
    by (rule that [OF walk _ p fl _ e]) (simp_all add: h' fl)
qed

text \<open>
  C10. After every successful open the root directory entry is in the flat list twice: the
  walk appends it after all its descendants, and \<^verbatim>\<open>validate\<close> appends the pointer
  that \<^verbatim>\<open>dirinfo\<close> returns once more. The last two elements of the flat list are
  the root, every other entry occurs once, and the list is one longer than the number of
  entries.
\<close>

theorem root_registered_twice:
  assumes "hpifile_new d a f = Some (Inr (h', msgs))" and "valid h'"
  shows "\<exists>p h1 fl.
           dirinfo d [] [] (header_diroffset (header_read (fresh_hpifile a f)))
             (header_read (fresh_hpifile a f)) = Some (Inr (p, h1)) \<and>
           flatlist h1 = fl @ [p] \<and> flatlist h' = fl @ [p, p] \<and>
           distinct (fl @ [p]) \<and> set (fl @ [p]) = {..<length (heap h')} \<and>
           length (flatlist h') = card (set (flatlist h')) + 1 \<and>
           length (flatlist h') = length (heap h') + 1"
proof -
  from assms obtain p h1 where
    walk: "dirinfo d [] [] (header_diroffset (header_read (fresh_hpifile a f)))
             (header_read (fresh_hpifile a f)) = Some (Inr (p, h1))"
    and hp: "heap h' = heap h1" and p: "Suc p = length (heap h1)"
    and fl1: "flatlist h1 = [0..<Suc p]" and fl': "flatlist h' = [0..<Suc p] @ [p]"
    by (rule opened_layout)
  have set': "set (flatlist h') = {..<Suc p}"
    by (auto simp: fl')
  have "flatlist h1 = [0..<p] @ [p]" "flatlist h' = [0..<p] @ [p, p]"
    by (simp_all add: fl1 fl')
  moreover have "distinct ([0..<p] @ [p])" "set ([0..<p] @ [p]) = {..<length (heap h')}"
    by (auto simp: hp p [symmetric])
  moreover have "length (flatlist h') = card (set (flatlist h')) + 1"
    by (simp add: set') (simp add: fl')
  moreover have "length (flatlist h') = length (heap h') + 1"
    by (simp add: fl' hp p [symmetric])
  ultimately show ?thesis using walk by blast
qed

lemma one_file_valid: "valid one_file_opened"
  by (simp add: one_file_opened_def)

theorem root_registered_twice_witness:
  "hpifile_new (Suc (Suc 0)) 7 (plain_stream one_file_archive) = Some (Inr (one_file_opened, []))
   \<and> valid one_file_opened
   \<and> (\<exists>p h1 fl.
           dirinfo (Suc (Suc 0)) [] []
             (header_diroffset (header_read (fresh_hpifile 7 (plain_stream one_file_archive))))
             (header_read (fresh_hpifile 7 (plain_stream one_file_archive))) = Some (Inr (p, h1)) \<and>
           flatlist h1 = fl @ [p] \<and> flatlist one_file_opened = fl @ [p, p] \<and>
           distinct (fl @ [p]) \<and> set (fl @ [p]) = {..<length (heap one_file_opened)} \<and>
           length (flatlist one_file_opened) = card (set (flatlist one_file_opened)) + 1 \<and>
           length (flatlist one_file_opened) = length (heap one_file_opened) + 1)"
  using root_registered_twice [OF one_file_archive_opens one_file_valid]
    one_file_archive_opens one_file_valid
  by (intro conjI)









subsection \<open>The entries that the walk constructs\<close>

lemma validate_Inr_cases:
  assumes "validate d h = Some (Inr (h', msgs))"
  shows "h' = rejected1 h \<or> h' = rejected2 h \<or>
         (\<exists>p h1. dirinfo d [] [] (header_diroffset (header_read h)) (header_read h)
                    = Some (Inr (p, h1)) \<and>
                  h' = h1\<lparr>flatlist := flatlist h1 @ [p]\<rparr>)"
proof (cases "header_magic1 h = HAPI_MAGIC")
  case False
  from validate_rejected1 [OF this, of d] assms show ?thesis by simp
next
  case m1: True
  show ?thesis
  proof (cases "header_magic2 h = HAPI_VERSION_MAGIC")
    case False
    from validate_rejected2 [OF m1 this, of d] assms show ?thesis by simp
  next
    case True
    from assms show ?thesis
      by (auto simp: validate_accepted [OF m1 True] split: option.splits sum.splits)
  qed
qed

lemma dirs_zero_snoc:
  "dirs_zero (es @ [e]) \<longleftrightarrow> dirs_zero es \<and> (directory e \<longrightarrow> he_offset e = 0 \<and> he_size e = 0)"
  unfolding dirs_zero_def by auto

lemma dirinfo_dirs_zero:
  assumes walk: "dirinfo d pn dn off h = Some (Inr (p, h'))"
    and pre: "dirs_zero (heap h)"
  shows "dirs_zero (heap h')"
proof -
  let ?R = "\<lambda>h h'. dirs_zero (heap h) \<longrightarrow> dirs_zero (heap h')"
  have rfl: "\<And>h. ?R h h" by blast
  have trans: "\<And>a b c. ?R a b \<Longrightarrow> ?R b c \<Longrightarrow> ?R a c" by blast
  have strm: "\<And>h f. ?R h (h\<lparr>stream := f\<rparr>)" by simp
  have fil: "\<And>np nm off h. ?R h (snd (fileinfo np nm off h))"
    by (simp add: fileinfo_eq dirs_zero_snoc new_hpientry_def)
  have dir: "\<And>h pn dn listing.
               ?R h (h\<lparr>heap := heap h @ [dir_entry (self h) pn dn listing],
                      flatlist := flatlist h @ [length (heap h)]\<rparr>)"
    by (simp add: dirs_zero_snoc dir_entry_def)
  have "?R h h'"
    by (rule dirinfo_rel [where R = ?R, OF rfl trans strm fil dir walk])
  with pre show ?thesis by blast
qed

text \<open>
  C9. Every directory entry that tree construction produces, the root included, has
  offset 0 and size 0: \<^verbatim>\<open>dirinfo\<close> does not store its argument \<^verbatim>\<open>offset\<close>. A file
  entry carries the data offset and the data size that \<^verbatim>\<open>fileinfo\<close> reads.
\<close>

theorem directory_entries_without_offset:
  "(hpifile_new d a f = Some (Inr (h', msgs)) \<longrightarrow>
      dirs_zero (heap h')) \<and>
   (dirinfo d pn dn off h = Some (Inr (p, h1)) \<longrightarrow>
      heap h1 ! p = dir_entry (self h) pn dn (subdir (heap h1 ! p)) \<and>
      directory (heap h1 ! p) \<and> he_offset (heap h1 ! p) = 0 \<and> he_size (heap h1 ! p) = 0) \<and>
   heap (snd (fileinfo pn nm off h)) ! fst (fileinfo pn nm off h)
     = new_hpientry (self h) pn nm (fst (readint (stream h)))
         (fst (readint (snd (readint (stream h)))))"
proof (intro conjI impI)
  assume op: "hpifile_new d a f = Some (Inr (h', msgs))"
  let ?h = "fresh_hpifile a f"
  have empty: "heap (rejected1 ?h) = []" "heap (rejected2 ?h) = []" "heap (header_read ?h) = []"
    by (simp_all add: rejected1_def rejected2_def fresh_hpifile_def)
  from validate_Inr_cases [OF op [unfolded hpifile_new_def]]
  show "dirs_zero (heap h')"
  proof (elim disjE exE conjE)
    fix q h2
    assume walk: "dirinfo d [] [] (header_diroffset (header_read ?h)) (header_read ?h)
                  = Some (Inr (q, h2))"
      and h': "h' = h2\<lparr>flatlist := flatlist h2 @ [q]\<rparr>"
    from dirinfo_dirs_zero [OF walk] empty h' show ?thesis by (simp add: dirs_zero_def)
  qed (simp_all add: empty dirs_zero_def)
next
  assume walk: "dirinfo d pn dn off h = Some (Inr (p, h1))"
  from dirinfo_pointer [OF walk]
  have e: "heap h1 ! p = dir_entry (self h) pn dn (subdir (heap h1 ! p))" by simp
  then show "heap h1 ! p = dir_entry (self h) pn dn (subdir (heap h1 ! p))" .
  from e have "directory (heap h1 ! p) = directory (dir_entry (self h) pn dn (subdir (heap h1 ! p)))"
    "he_offset (heap h1 ! p) = he_offset (dir_entry (self h) pn dn (subdir (heap h1 ! p)))"
    "he_size (heap h1 ! p) = he_size (dir_entry (self h) pn dn (subdir (heap h1 ! p)))"
    by simp_all
  then show "directory (heap h1 ! p)" "he_offset (heap h1 ! p) = 0" "he_size (heap h1 ! p) = 0"
    by (simp_all add: dir_entry_def)
next
  show "heap (snd (fileinfo pn nm off h)) ! fst (fileinfo pn nm off h)
     = new_hpientry (self h) pn nm (fst (readint (stream h)))
         (fst (readint (snd (readint (stream h)))))"
    by (simp add: fileinfo_eq)
qed

theorem directory_entries_without_offset_witness:
  "hpifile_new (Suc (Suc 0)) 7 (plain_stream one_file_archive) = Some (Inr (one_file_opened, []))
   \<and> dirs_zero (heap one_file_opened)
   \<and> dirinfo (Suc (Suc 0)) [] [] 20
        (header_read (fresh_hpifile 7 (plain_stream one_file_archive)))
       = Some (Inr (1, one_file_opened\<lparr>flatlist := [0, 1]\<rparr>))
   \<and> he_offset (heap (one_file_opened\<lparr>flatlist := [0, 1]\<rparr>) ! 1) = 0
   \<and> he_size (heap (one_file_opened\<lparr>flatlist := [0, 1]\<rparr>) ! 1) = 0
   \<and> he_offset (heap one_file_opened ! 0) = 47 \<and> he_size (heap one_file_opened ! 0) = 3"
proof -
  note inst = directory_entries_without_offset
    [of "Suc (Suc 0)" 7 "plain_stream one_file_archive" one_file_opened "[]" "[]" "[]" 20
        "header_read (fresh_hpifile 7 (plain_stream one_file_archive))" 1
        "one_file_opened\<lparr>flatlist := [0, 1]\<rparr>"]
  have dirs: "dirs_zero (heap one_file_opened)"
    by (rule inst [THEN conjunct1, THEN mp, OF one_file_archive_opens])
  have root: "he_offset (heap (one_file_opened\<lparr>flatlist := [0, 1]\<rparr>) ! 1) = 0 \<and>
              he_size (heap (one_file_opened\<lparr>flatlist := [0, 1]\<rparr>) ! 1) = 0"
    using inst [THEN conjunct2, THEN conjunct1, THEN mp, OF one_file_walk] by (elim conjE) (intro conjI)
  have leaf: "he_offset (heap one_file_opened ! 0) = 47 \<and> he_size (heap one_file_opened ! 0) = 3"
    by (simp add: one_file_opened_def)
  show ?thesis
    using one_file_archive_opens dirs one_file_walk root leaf by (elim conjE) (intro conjI)
qed

subsection \<open>The preconditions of getdata\<close>

text \<open>
  C6. \<^verbatim>\<open>getdata\<close> checks its two preconditions, in this order, before it touches the
  stream. For an entry whose back-reference is not this archive it writes the mismatch
  message and returns 0; for a directory entry of this archive it writes the directory
  message and returns 0. In both cases the buffer and the archive object, with its stream,
  are returned as they were.
\<close>

theorem getdata_preconditions:
  "(he_file he \<noteq> self h \<longrightarrow>
      getdata sqsh h he data = (0, data, h, [HPIentry_does_not_match])) \<and>
   (he_file he = self h \<and> directory he \<longrightarrow>
      getdata sqsh h he data = (0, data, h, [HPIentry_is_a_directory]))"
  unfolding getdata_def
  by (intro conjI impI) (simp_all only: if_True if_False if_not_P simp_thms)

theorem getdata_preconditions_witness:
  "he_file (heap one_file_opened ! 1) = self one_file_opened
   \<and> directory (heap one_file_opened ! 1)
   \<and> getdata stored_codec one_file_opened (heap one_file_opened ! 1) [1, 2]
       = (0, [1, 2], one_file_opened, [HPIentry_is_a_directory])
   \<and> he_file (heap one_file_opened ! 0) \<noteq> self other_hpifile
   \<and> getdata stored_codec other_hpifile (heap one_file_opened ! 0) [1, 2]
       = (0, [1, 2], other_hpifile, [HPIentry_does_not_match])"
proof -
  have a: "he_file (heap one_file_opened ! 1) = self one_file_opened \<and>
           directory (heap one_file_opened ! 1)"
    by (simp add: one_file_opened_def)
  have b: "he_file (heap one_file_opened ! 0) \<noteq> self other_hpifile"
    by (simp add: one_file_opened_def other_hpifile_def fresh_hpifile_def)
  note dir = getdata_preconditions
    [of "heap one_file_opened ! 1" one_file_opened stored_codec "[1, 2]",
     THEN conjunct2, THEN mp, OF a]
  note other = getdata_preconditions
    [of "heap one_file_opened ! 0" other_hpifile stored_codec "[1, 2]",
     THEN conjunct1, THEN mp, OF b]
  show ?thesis
    using a dir b other by (elim conjE) (intro conjI)
qed


subsection \<open>Header validation\<close>

lemma magic_distinct:
  "BANK_MAGIC \<noteq> HAPI_VERSION_MAGIC" "HAPI2_VERSION_MAGIC \<noteq> HAPI_VERSION_MAGIC"
  "HAPI2_VERSION_MAGIC \<noteq> BANK_MAGIC"
  by (simp_all add: BANK_MAGIC_def HAPI_VERSION_MAGIC_def HAPI2_VERSION_MAGIC_def)

lemma validate_msgs:
  assumes "validate d h = Some (Inr (h', msgs))"
  shows "msgs =
     (if header_magic1 h \<noteq> HAPI_MAGIC then [Invalid_HAPI_signature (header_magic1 h)]
      else if header_magic2 h = HAPI_VERSION_MAGIC then []
      else if header_magic2 h = BANK_MAGIC
        then [Bank_subtype_looks_like_saved_game (header_magic2 h)]
      else if header_magic2 h = HAPI2_VERSION_MAGIC then [HAPIv2_not_supported]
      else [Invalid_bank_subtype_signature (header_magic2 h)])"
proof (cases "header_magic1 h = HAPI_MAGIC")
  case False
  from validate_rejected1 [OF this, of d] assms False show ?thesis by simp
next
  case m1: True
  show ?thesis
  proof (cases "header_magic2 h = HAPI_VERSION_MAGIC")
    case False
    from validate_rejected2 [OF m1 this, of d] assms m1 False show ?thesis by auto
  next
    case True
    from assms have "msgs = []"
      by (auto simp: validate_accepted [OF m1 True] split: option.splits sum.splits)
    with m1 True show ?thesis by simp
  qed
qed

lemma validate_valid_iff:
  assumes "validate d h = Some (Inr (h', msgs))"
  shows "valid h' \<longleftrightarrow> header_magic1 h = HAPI_MAGIC \<and> header_magic2 h = HAPI_VERSION_MAGIC"
proof
  assume "valid h'"
  with validate_valid [OF assms] show "header_magic1 h = HAPI_MAGIC \<and> header_magic2 h = HAPI_VERSION_MAGIC"
    by blast
next
  assume m: "header_magic1 h = HAPI_MAGIC \<and> header_magic2 h = HAPI_VERSION_MAGIC"
  from assms have "\<exists>p h1. dirinfo d [] [] (header_diroffset (header_read h)) (header_read h)
                    = Some (Inr (p, h1)) \<and> h' = h1\<lparr>flatlist := flatlist h1 @ [p]\<rparr>"
    by (auto simp: validate_accepted [OF conjunct1 [OF m] conjunct2 [OF m]]
          split: option.splits sum.splits)
  then obtain p h1 where
    walk: "dirinfo d [] [] (header_diroffset (header_read h)) (header_read h) = Some (Inr (p, h1))"
    and h': "h' = h1\<lparr>flatlist := flatlist h1 @ [p]\<rparr>" by blast
  from dirinfo_frame [OF walk] h' show "valid h'" by simp
qed

text \<open>
  C7. Header validation decides on the first two 32-bit fields alone, and each outcome has
  its own message: the signature message exactly when the first field is not the container
  signature; otherwise the saved-game message exactly when the second field is the bank
  signature, the version message exactly when it is the signature of version 2, and the
  subtype message exactly when it is none of the three known values. A rejected header
  leaves the object invalid after four respectively eight bytes, with key and flat list as
  they were. Only when both fields match are the three remaining fields read and the key
  set, and the result is that of the walk from the root directory offset, with the object
  valid.
\<close>

theorem validate_header_taxonomy:
  "(header_magic1 h \<noteq> HAPI_MAGIC \<longleftrightarrow>
      (\<exists>h' v. validate d h = Some (Inr (h', [Invalid_HAPI_signature v])))) \<and>
   (header_magic1 h = HAPI_MAGIC \<and> header_magic2 h = BANK_MAGIC \<longleftrightarrow>
      (\<exists>h' v. validate d h = Some (Inr (h', [Bank_subtype_looks_like_saved_game v])))) \<and>
   (header_magic1 h = HAPI_MAGIC \<and> header_magic2 h = HAPI2_VERSION_MAGIC \<longleftrightarrow>
      (\<exists>h'. validate d h = Some (Inr (h', [HAPIv2_not_supported])))) \<and>
   (header_magic1 h = HAPI_MAGIC \<and> header_magic2 h \<noteq> HAPI_VERSION_MAGIC \<and>
    header_magic2 h \<noteq> BANK_MAGIC \<and> header_magic2 h \<noteq> HAPI2_VERSION_MAGIC \<longleftrightarrow>
      (\<exists>h' v. validate d h = Some (Inr (h', [Invalid_bank_subtype_signature v])))) \<and>
   (header_magic1 h \<noteq> HAPI_MAGIC \<longrightarrow>
      validate d h = Some (Inr (rejected1 h, [Invalid_HAPI_signature (header_magic1 h)])) \<and>
      \<not> valid (rejected1 h) \<and> cursor (stream (rejected1 h)) = cursor (stream h) + 4 \<and>
      key (stream (rejected1 h)) = key (stream h) \<and> flatlist (rejected1 h) = flatlist h) \<and>
   (header_magic1 h = HAPI_MAGIC \<and> header_magic2 h \<noteq> HAPI_VERSION_MAGIC \<longrightarrow>
      (\<exists>m. validate d h = Some (Inr (rejected2 h, [m])) \<and>
           m \<in> {Bank_subtype_looks_like_saved_game (header_magic2 h), HAPIv2_not_supported,
                 Invalid_bank_subtype_signature (header_magic2 h)}) \<and>
      \<not> valid (rejected2 h) \<and> cursor (stream (rejected2 h)) = cursor (stream h) + 8 \<and>
      key (stream (rejected2 h)) = key (stream h) \<and> flatlist (rejected2 h) = flatlist h) \<and>
   (header_magic1 h = HAPI_MAGIC \<and> header_magic2 h = HAPI_VERSION_MAGIC \<longrightarrow>
      validate d h =
        (case dirinfo d [] [] (header_diroffset (header_read h)) (header_read h) of
           None \<Rightarrow> None
         | Some (Inl e) \<Rightarrow> Some (Inl e)
         | Some (Inr (p, h')) \<Rightarrow> Some (Inr (h'\<lparr>flatlist := flatlist h' @ [p]\<rparr>, []))) \<and>
      valid (header_read h) \<and> cursor (stream (header_read h)) = cursor (stream h) + 20 \<and>
      key (stream (header_read h)) = header_key (header_read h)) \<and>
   (\<forall>h' msgs. validate d h = Some (Inr (h', msgs)) \<longrightarrow>
      (valid h' \<longleftrightarrow> header_magic1 h = HAPI_MAGIC \<and> header_magic2 h = HAPI_VERSION_MAGIC))"
proof (intro conjI)
  show "header_magic1 h \<noteq> HAPI_MAGIC \<longleftrightarrow>
          (\<exists>h' v. validate d h = Some (Inr (h', [Invalid_HAPI_signature v])))"
  proof
    assume "header_magic1 h \<noteq> HAPI_MAGIC"
    from validate_rejected1 [OF this, of d] show "\<exists>h' v. validate d h = Some (Inr (h', [Invalid_HAPI_signature v]))"
      by blast
  next
    assume "\<exists>h' v. validate d h = Some (Inr (h', [Invalid_HAPI_signature v]))"
    then obtain h' v where "validate d h = Some (Inr (h', [Invalid_HAPI_signature v]))" by blast
    from validate_msgs [OF this] show "header_magic1 h \<noteq> HAPI_MAGIC"
      by (auto split: if_splits)
  qed
next
  show "header_magic1 h = HAPI_MAGIC \<and> header_magic2 h = BANK_MAGIC \<longleftrightarrow>
          (\<exists>h' v. validate d h = Some (Inr (h', [Bank_subtype_looks_like_saved_game v])))"
  proof
    assume m: "header_magic1 h = HAPI_MAGIC \<and> header_magic2 h = BANK_MAGIC"
    then have "header_magic2 h \<noteq> HAPI_VERSION_MAGIC" by (simp add: magic_distinct)
    from validate_rejected2 [OF conjunct1 [OF m] this, of d] m
    show "\<exists>h' v. validate d h = Some (Inr (h', [Bank_subtype_looks_like_saved_game v]))"
      by auto
  next
    assume "\<exists>h' v. validate d h = Some (Inr (h', [Bank_subtype_looks_like_saved_game v]))"
    then obtain h' v where "validate d h = Some (Inr (h', [Bank_subtype_looks_like_saved_game v]))"
      by blast
    from validate_msgs [OF this] show "header_magic1 h = HAPI_MAGIC \<and> header_magic2 h = BANK_MAGIC"
      by (auto split: if_splits)
  qed
next
  show "header_magic1 h = HAPI_MAGIC \<and> header_magic2 h = HAPI2_VERSION_MAGIC \<longleftrightarrow>
          (\<exists>h'. validate d h = Some (Inr (h', [HAPIv2_not_supported])))"
  proof
    assume m: "header_magic1 h = HAPI_MAGIC \<and> header_magic2 h = HAPI2_VERSION_MAGIC"
    then have "header_magic2 h \<noteq> HAPI_VERSION_MAGIC" "header_magic2 h \<noteq> BANK_MAGIC"
      by (simp_all add: magic_distinct)
    with validate_rejected2 [OF conjunct1 [OF m], of d] m
    show "\<exists>h'. validate d h = Some (Inr (h', [HAPIv2_not_supported]))"
      by auto
  next
    assume "\<exists>h'. validate d h = Some (Inr (h', [HAPIv2_not_supported]))"
    then obtain h' where "validate d h = Some (Inr (h', [HAPIv2_not_supported]))"
      by blast
    from validate_msgs [OF this]
    show "header_magic1 h = HAPI_MAGIC \<and> header_magic2 h = HAPI2_VERSION_MAGIC"
      by (auto split: if_splits)
  qed
next
  show "header_magic1 h = HAPI_MAGIC \<and> header_magic2 h \<noteq> HAPI_VERSION_MAGIC \<and>
        header_magic2 h \<noteq> BANK_MAGIC \<and> header_magic2 h \<noteq> HAPI2_VERSION_MAGIC \<longleftrightarrow>
          (\<exists>h' v. validate d h = Some (Inr (h', [Invalid_bank_subtype_signature v])))"
  proof
    assume m: "header_magic1 h = HAPI_MAGIC \<and> header_magic2 h \<noteq> HAPI_VERSION_MAGIC \<and>
        header_magic2 h \<noteq> BANK_MAGIC \<and> header_magic2 h \<noteq> HAPI2_VERSION_MAGIC"
    with validate_rejected2 [of h d]
    show "\<exists>h' v. validate d h = Some (Inr (h', [Invalid_bank_subtype_signature v]))"
      by auto
  next
    assume "\<exists>h' v. validate d h = Some (Inr (h', [Invalid_bank_subtype_signature v]))"
    then obtain h' v where "validate d h = Some (Inr (h', [Invalid_bank_subtype_signature v]))"
      by blast
    from validate_msgs [OF this]
    show "header_magic1 h = HAPI_MAGIC \<and> header_magic2 h \<noteq> HAPI_VERSION_MAGIC \<and>
        header_magic2 h \<noteq> BANK_MAGIC \<and> header_magic2 h \<noteq> HAPI2_VERSION_MAGIC"
      by (auto split: if_splits)
  qed
next
  show "header_magic1 h \<noteq> HAPI_MAGIC \<longrightarrow>
      validate d h = Some (Inr (rejected1 h, [Invalid_HAPI_signature (header_magic1 h)])) \<and>
      \<not> valid (rejected1 h) \<and> cursor (stream (rejected1 h)) = cursor (stream h) + 4 \<and>
      key (stream (rejected1 h)) = key (stream h) \<and> flatlist (rejected1 h) = flatlist h"
    by (simp add: validate_rejected1) (simp add: rejected1_def)
next
  show "header_magic1 h = HAPI_MAGIC \<and> header_magic2 h \<noteq> HAPI_VERSION_MAGIC \<longrightarrow>
      (\<exists>m. validate d h = Some (Inr (rejected2 h, [m])) \<and>
           m \<in> {Bank_subtype_looks_like_saved_game (header_magic2 h), HAPIv2_not_supported,
                 Invalid_bank_subtype_signature (header_magic2 h)}) \<and>
      \<not> valid (rejected2 h) \<and> cursor (stream (rejected2 h)) = cursor (stream h) + 8 \<and>
      key (stream (rejected2 h)) = key (stream h) \<and> flatlist (rejected2 h) = flatlist h"
    by (simp add: validate_rejected2) (simp add: rejected2_def)
next
  show "header_magic1 h = HAPI_MAGIC \<and> header_magic2 h = HAPI_VERSION_MAGIC \<longrightarrow>
      validate d h =
        (case dirinfo d [] [] (header_diroffset (header_read h)) (header_read h) of
           None \<Rightarrow> None
         | Some (Inl e) \<Rightarrow> Some (Inl e)
         | Some (Inr (p, h')) \<Rightarrow> Some (Inr (h'\<lparr>flatlist := flatlist h' @ [p]\<rparr>, []))) \<and>
      valid (header_read h) \<and> cursor (stream (header_read h)) = cursor (stream h) + 20 \<and>
      key (stream (header_read h)) = header_key (header_read h)"
  proof (intro impI conjI)
    assume m: "header_magic1 h = HAPI_MAGIC \<and> header_magic2 h = HAPI_VERSION_MAGIC"
    show "validate d h =
        (case dirinfo d [] [] (header_diroffset (header_read h)) (header_read h) of
           None \<Rightarrow> None
         | Some (Inl e) \<Rightarrow> Some (Inl e)
         | Some (Inr (p, h')) \<Rightarrow> Some (Inr (h'\<lparr>flatlist := flatlist h' @ [p]\<rparr>, [])))"
      by (rule validate_accepted [OF conjunct1 [OF m] conjunct2 [OF m]])
  qed (simp_all add: header_read_def Let_def setkey_def)
next
  show "\<forall>h' msgs. validate d h = Some (Inr (h', msgs)) \<longrightarrow>
      (valid h' \<longleftrightarrow> header_magic1 h = HAPI_MAGIC \<and> header_magic2 h = HAPI_VERSION_MAGIC)"
    using validate_valid_iff by blast
qed

theorem validate_header_taxonomy_witness:
  "header_magic1 (fresh_hpifile 7 (plain_stream no_hapi_header)) \<noteq> HAPI_MAGIC
   \<and> validate 0 (fresh_hpifile 7 (plain_stream no_hapi_header))
       = Some (Inr (rejected1 (fresh_hpifile 7 (plain_stream no_hapi_header)),
                    [Invalid_HAPI_signature 0x04034B50]))
   \<and> header_magic2 (fresh_hpifile 7 (plain_stream savegame_header)) = BANK_MAGIC
   \<and> (\<exists>h' v. validate 0 (fresh_hpifile 7 (plain_stream savegame_header))
                = Some (Inr (h', [Bank_subtype_looks_like_saved_game v])))
   \<and> header_magic2 (fresh_hpifile 7 (plain_stream hapi2_header)) = HAPI2_VERSION_MAGIC
   \<and> (\<exists>h'. validate 0 (fresh_hpifile 7 (plain_stream hapi2_header))
              = Some (Inr (h', [HAPIv2_not_supported])))
   \<and> header_magic2 (fresh_hpifile 7 (plain_stream odd_header)) = 0x30000
   \<and> (\<exists>h' v. validate 0 (fresh_hpifile 7 (plain_stream odd_header))
                = Some (Inr (h', [Invalid_bank_subtype_signature v])))
   \<and> header_magic2 (fresh_hpifile 7 (plain_stream one_file_archive)) = HAPI_VERSION_MAGIC
   \<and> valid one_file_opened"
proof -
  let ?no = "fresh_hpifile 7 (plain_stream no_hapi_header)"
  let ?sg = "fresh_hpifile 7 (plain_stream savegame_header)"
  let ?v2 = "fresh_hpifile 7 (plain_stream hapi2_header)"
  let ?odd = "fresh_hpifile 7 (plain_stream odd_header)"
  let ?ok = "fresh_hpifile 7 (plain_stream one_file_archive)"
  have no: "header_magic1 ?no = 0x04034B50" "header_magic1 ?no \<noteq> HAPI_MAGIC"
    by (simp_all add: walk_eval no_hapi_header_def HAPI_MAGIC_def)
  have sg: "header_magic1 ?sg = HAPI_MAGIC \<and> header_magic2 ?sg = BANK_MAGIC"
    by (simp add: walk_eval savegame_header_def HAPI_MAGIC_def BANK_MAGIC_def)
  have v2: "header_magic1 ?v2 = HAPI_MAGIC \<and> header_magic2 ?v2 = HAPI2_VERSION_MAGIC"
    by (simp add: walk_eval hapi2_header_def HAPI_MAGIC_def HAPI2_VERSION_MAGIC_def)
  have odd: "header_magic1 ?odd = HAPI_MAGIC" "header_magic2 ?odd = 0x30000"
    by (simp_all add: walk_eval odd_header_def HAPI_MAGIC_def)
  have odd': "header_magic1 ?odd = HAPI_MAGIC \<and> header_magic2 ?odd \<noteq> HAPI_VERSION_MAGIC \<and>
              header_magic2 ?odd \<noteq> BANK_MAGIC \<and> header_magic2 ?odd \<noteq> HAPI2_VERSION_MAGIC"
    by (simp add: odd HAPI_VERSION_MAGIC_def BANK_MAGIC_def HAPI2_VERSION_MAGIC_def)
  note t_no = validate_header_taxonomy [where h = ?no and d = 0]
  note t_sg = validate_header_taxonomy [where h = ?sg and d = 0]
  note t_v2 = validate_header_taxonomy [where h = ?v2 and d = 0]
  note t_odd = validate_header_taxonomy [where h = ?odd and d = 0]
  note t_ok = validate_header_taxonomy [where h = ?ok and d = "Suc (Suc 0)"]
  have r1: "validate 0 ?no = Some (Inr (rejected1 ?no, [Invalid_HAPI_signature 0x04034B50]))"
    using t_no [THEN conjunct2, THEN conjunct2, THEN conjunct2, THEN conjunct2, THEN conjunct1,
                THEN mp, OF no(2), THEN conjunct1]
    by (simp only: no(1))
  have r2: "\<exists>h' v. validate 0 ?sg = Some (Inr (h', [Bank_subtype_looks_like_saved_game v]))"
    by (rule t_sg [THEN conjunct2, THEN conjunct1, THEN iffD1, OF sg])
  have r3: "\<exists>h'. validate 0 ?v2 = Some (Inr (h', [HAPIv2_not_supported]))"
    by (rule t_v2 [THEN conjunct2, THEN conjunct2, THEN conjunct1, THEN iffD1, OF v2])
  have r4: "\<exists>h' v. validate 0 ?odd = Some (Inr (h', [Invalid_bank_subtype_signature v]))"
    by (rule t_odd [THEN conjunct2, THEN conjunct2, THEN conjunct2, THEN conjunct1, THEN iffD1,
                    OF odd'])
  have ok: "header_magic1 ?ok = HAPI_MAGIC \<and> header_magic2 ?ok = HAPI_VERSION_MAGIC"
    by (simp add: one_file_header)
  have r5: "valid one_file_opened"
    using t_ok [THEN conjunct2, THEN conjunct2, THEN conjunct2, THEN conjunct2, THEN conjunct2,
                THEN conjunct2, THEN conjunct2, THEN spec, THEN spec, THEN mp,
                OF one_file_archive_opens [unfolded hpifile_new_def], THEN iffD2, OF ok] .
  show ?thesis
    using no(2) r1 sg r2 v2 r3 odd(2) r4 ok r5 by (elim conjE) (intro conjI)
qed

subsection \<open>Records of unknown type\<close>

text \<open>
  C5. A record whose type byte is neither 0 nor 1 makes the loop throw the runtime error
  at once, whatever the depth bound and whatever follows the record. Nothing catches the
  exception: it leaves the iteration, the loop, every enclosing \<^verbatim>\<open>dirinfo\<close> and
  \<^verbatim>\<open>validate\<close>, and with it the constructor, so the caller gets the exception and no
  archive object.
\<close>

theorem unknown_entry_type_aborts_open:
  "(record_entrytype h \<noteq> 0 \<and> record_entrytype h \<noteq> 1 \<longrightarrow>
      dirinfo_loop d np (Suc k) l h = Some (Inl (Runtime_error ''Unknown entry type''))) \<and>
   (record_entrytype h = 1 \<and>
    dirinfo d np (record_itemname h) (record_infooffset h) (record_child h) = Some (Inl e) \<longrightarrow>
      record_step d np h = Some (Inl e)) \<and>
   (record_step d np h = Some (Inl e) \<longrightarrow> dirinfo_loop d np (Suc k) l h = Some (Inl e)) \<and>
   (record_step d np h = Some (Inr (p, h1)) \<and>
    dirinfo_loop d np k (l @ [p]) h1 = Some (Inl e) \<longrightarrow>
      dirinfo_loop d np (Suc k) l h = Some (Inl e)) \<and>
   (dirinfo_loop d (newparent_of pn dn) (unat (dir_entries off h)) [] (dir_start off h)
      = Some (Inl e) \<longrightarrow>
      dirinfo (Suc d) pn dn off h = Some (Inl e)) \<and>
   (header_magic1 h = HAPI_MAGIC \<and> header_magic2 h = HAPI_VERSION_MAGIC \<and>
    dirinfo d [] [] (header_diroffset (header_read h)) (header_read h) = Some (Inl e) \<longrightarrow>
      validate d h = Some (Inl e))"
proof (intro conjI impI)
  assume "record_entrytype h \<noteq> 0 \<and> record_entrytype h \<noteq> 1"
  then show "dirinfo_loop d np (Suc k) l h = Some (Inl (Runtime_error ''Unknown entry type''))"
    by (simp add: dirinfo_loop_step record_step_def)
next
  assume "record_entrytype h = 1 \<and>
    dirinfo d np (record_itemname h) (record_infooffset h) (record_child h) = Some (Inl e)"
  then show "record_step d np h = Some (Inl e)"
    by (simp add: record_step_def)
next
  assume "record_step d np h = Some (Inl e)"
  then show "dirinfo_loop d np (Suc k) l h = Some (Inl e)"
    by (simp add: dirinfo_loop_step)
next
  assume "record_step d np h = Some (Inr (p, h1)) \<and>
    dirinfo_loop d np k (l @ [p]) h1 = Some (Inl e)"
  then show "dirinfo_loop d np (Suc k) l h = Some (Inl e)"
    by (simp add: dirinfo_loop_step)
next
  assume "dirinfo_loop d (newparent_of pn dn) (unat (dir_entries off h)) [] (dir_start off h)
      = Some (Inl e)"
  then show "dirinfo (Suc d) pn dn off h = Some (Inl e)"
    by (simp add: dirinfo_Suc)
next
  assume a: "header_magic1 h = HAPI_MAGIC \<and> header_magic2 h = HAPI_VERSION_MAGIC \<and>
    dirinfo d [] [] (header_diroffset (header_read h)) (header_read h) = Some (Inl e)"
  then have "header_magic1 h = HAPI_MAGIC" "header_magic2 h = HAPI_VERSION_MAGIC" by simp_all
  from validate_accepted [OF this, of d] a show "validate d h = Some (Inl e)"
    by simp
qed

lemmas bad_eval = walk_eval bad_type_archive_def bad_root_def bad_sub_first_def
  bad_sub_second_def

lemma bad_header:
  "header_magic1 (fresh_hpifile 7 (plain_stream bad_type_archive)) = HAPI_MAGIC"
  "header_magic2 (fresh_hpifile 7 (plain_stream bad_type_archive)) = HAPI_VERSION_MAGIC"
  "header_diroffset bad_root = 20"
  by (simp_all add: bad_eval HAPI_MAGIC_def HAPI_VERSION_MAGIC_def)

lemma bad_root_record:
  "unat (dir_entries 20 bad_root) = Suc 0"
  "record_entrytype (dir_start 20 bad_root) = 1"
  "record_itemname (dir_start 20 bad_root) = ''d''"
  "record_infooffset (dir_start 20 bad_root) = 39"
  by (simp_all add: bad_eval)

lemma bad_sub_records:
  "unat (dir_entries 39 (record_child (dir_start 20 bad_root))) = Suc (Suc 0)"
  "record_entrytype bad_sub_first = 0"
  "record_entrytype bad_sub_second = 7"
  by (simp_all add: bad_eval)

theorem unknown_entry_type_aborts_open_witness:
  "record_entrytype bad_sub_second = 7
   \<and> dirinfo_loop (Suc 0) ''d'' (Suc 0) [0] bad_sub_second
       = Some (Inl (Runtime_error ''Unknown entry type''))
   \<and> record_step (Suc 0) ''d'' bad_sub_first = Some (Inr (0, bad_sub_second))
   \<and> dirinfo_loop (Suc 0) ''d'' (Suc (Suc 0)) [] bad_sub_first
       = Some (Inl (Runtime_error ''Unknown entry type''))
   \<and> dirinfo (Suc (Suc 0)) [] ''d'' 39 (record_child (dir_start 20 bad_root))
       = Some (Inl (Runtime_error ''Unknown entry type''))
   \<and> record_step (Suc (Suc 0)) [] (dir_start 20 bad_root)
       = Some (Inl (Runtime_error ''Unknown entry type''))
   \<and> dirinfo (Suc (Suc (Suc 0))) [] [] 20 bad_root
       = Some (Inl (Runtime_error ''Unknown entry type''))
   \<and> hpifile_new (Suc (Suc (Suc 0))) 7 (plain_stream bad_type_archive)
       = Some (Inl (Runtime_error ''Unknown entry type''))"
proof -
  let ?E = "Runtime_error ''Unknown entry type''"
  let ?sub = "record_child (dir_start 20 bad_root)"
  have ty: "record_entrytype bad_sub_second \<noteq> 0 \<and> record_entrytype bad_sub_second \<noteq> 1"
    by (simp add: bad_sub_records)
  have s2: "dirinfo_loop (Suc 0) ''d'' (Suc 0) [0] bad_sub_second = Some (Inl ?E)"
    by (rule unknown_entry_type_aborts_open
          [where h = bad_sub_second and d = "Suc 0" and np = "''d''" and k = 0 and l = "[0]",
           THEN conjunct1, THEN mp, OF ty])
  have st: "record_step (Suc 0) ''d'' bad_sub_first = Some (Inr (0, bad_sub_second))"
    by (simp add: record_step_def bad_sub_records case_prod_beta fileinfo_eq)
       (simp add: bad_sub_second_def fileinfo_eq bad_sub_first_def record_child_def
          dir_start_def bad_root_def fresh_hpifile_def)
  have s1: "dirinfo_loop (Suc 0) ''d'' (Suc (Suc 0)) [] bad_sub_first = Some (Inl ?E)"
    using unknown_entry_type_aborts_open
          [where h = bad_sub_first and d = "Suc 0" and np = "''d''" and k = "Suc 0" and l = "[]"
             and p = 0 and ?h1.0 = bad_sub_second and e = ?E,
           THEN conjunct2, THEN conjunct2, THEN conjunct2, THEN conjunct1, THEN mp]
      st s2 by simp
  have sub: "dirinfo (Suc (Suc 0)) [] ''d'' 39 ?sub = Some (Inl ?E)"
    using unknown_entry_type_aborts_open
          [where h = ?sub and d = "Suc 0" and pn = "[]" and dn = "''d''" and off = 39 and e = ?E,
           THEN conjunct2, THEN conjunct2, THEN conjunct2, THEN conjunct2, THEN conjunct1, THEN mp]
      s1
    by (simp add: bad_sub_records(1) newparent_of_def bad_sub_first_def)
  have rs: "record_step (Suc (Suc 0)) [] (dir_start 20 bad_root) = Some (Inl ?E)"
    using unknown_entry_type_aborts_open
          [where h = "dir_start 20 bad_root" and d = "Suc (Suc 0)" and np = "[]" and e = ?E,
           THEN conjunct2, THEN conjunct1, THEN mp]
      sub
    by (simp add: bad_root_record)
  have rl: "dirinfo_loop (Suc (Suc 0)) [] (Suc 0) [] (dir_start 20 bad_root) = Some (Inl ?E)"
    by (rule unknown_entry_type_aborts_open
          [where h = "dir_start 20 bad_root" and d = "Suc (Suc 0)" and np = "[]" and e = ?E
             and k = 0 and l = "[]",
           THEN conjunct2, THEN conjunct2, THEN conjunct1, THEN mp, OF rs])
  have root: "dirinfo (Suc (Suc (Suc 0))) [] [] 20 bad_root = Some (Inl ?E)"
    using unknown_entry_type_aborts_open
          [where h = bad_root and d = "Suc (Suc 0)" and pn = "[]" and dn = "[]" and off = 20
             and e = ?E,
           THEN conjunct2, THEN conjunct2, THEN conjunct2, THEN conjunct2, THEN conjunct1, THEN mp]
      rl
    by (simp add: bad_root_record(1) newparent_of_def)
  have "validate (Suc (Suc (Suc 0))) (fresh_hpifile 7 (plain_stream bad_type_archive))
        = Some (Inl ?E)"
    using unknown_entry_type_aborts_open
          [where h = "fresh_hpifile 7 (plain_stream bad_type_archive)" and d = "Suc (Suc (Suc 0))"
             and e = ?E,
           THEN conjunct2, THEN conjunct2, THEN conjunct2, THEN conjunct2, THEN conjunct2, THEN mp]
      root bad_header
    by (simp add: bad_root_def [symmetric])
  then have op: "hpifile_new (Suc (Suc (Suc 0))) 7 (plain_stream bad_type_archive) = Some (Inl ?E)"
    by (simp add: hpifile_new_def)
  show ?thesis
    using bad_sub_records(3) s2 st s1 sub rs root op by (intro conjI)
qed

subsection \<open>The cursor in the stream of directory records\<close>

lemma record_currentpos_eq: "record_currentpos h = of_nat (cursor (stream h) + 9)"
  by (simp add: record_currentpos_def tellg_def)

lemma record_step_cursor:
  assumes "record_step d np h = Some (Inr (p, h1))"
  shows "cursor (stream h1) = unat (record_currentpos h)"
  using assms
  by (cases rule: record_step_Inr) (simp_all add: restore_def)

lemma unat_of_nat_u32: "n < 2 ^ 32 \<Longrightarrow> unat (of_nat n :: u32) = n"
  by (simp add: unat_of_nat)

text \<open>All records of a directory are read at consecutive positions, nine bytes apart.\<close>

lemma dirinfo_loop_cursor:
  "dirinfo_loop d np k l h = Some (Inr (l', h')) \<Longrightarrow> 0 < k \<Longrightarrow>
   cursor (stream h) + 9 * k < 2 ^ 32 \<Longrightarrow> cursor (stream h') = cursor (stream h) + 9 * k"
proof (induction k arbitrary: l h)
  case 0
  then show ?case by simp
next
  case (Suc k)
  from Suc.prems(1) obtain p h1 where
    step: "record_step d np h = Some (Inr (p, h1))"
    and rest: "dirinfo_loop d np k (l @ [p]) h1 = Some (Inr (l', h'))"
    by (rule dirinfo_loop_Suc_Inr)
  from Suc.prems(3) have "cursor (stream h) + 9 < 2 ^ 32" by simp
  with record_step_cursor [OF step] have c1: "cursor (stream h1) = cursor (stream h) + 9"
    by (simp only: record_currentpos_eq unat_of_nat_u32)
  show ?case
  proof (cases k)
    case 0
    with rest c1 show ?thesis by simp
  next
    case (Suc k')
    with Suc.prems(3) c1 have "cursor (stream h1) + 9 * k < 2 ^ 32" "0 < k" by simp_all
    from Suc.IH [OF rest this(2) this(1)] c1 show ?thesis by simp
  qed
qed

text \<open>
  C8, as amended. In an iteration that does not abort, the cursor is saved right after the
  nine bytes of the record, as a 32-bit value, and the next iteration starts with the
  cursor at the saved value, whatever the reads of the name, of the file info or of a
  whole subdirectory did to it. When the record ends below stream position \<open>2 ^ 32\<close>
  (as every record of an archive of less than 4 GiB does), that is nine bytes after the
  position at which the iteration started.
\<close>

theorem cursor_restored_after_record:
  assumes "record_step d np h = Some (Inr (p, h1))"
  shows "record_currentpos h = of_nat (cursor (stream h) + 9) \<and>
         cursor (stream h1) = unat (record_currentpos h) \<and>
         (cursor (stream h) + 9 < 2 ^ 32 \<longrightarrow> cursor (stream h1) = cursor (stream h) + 9) \<and>
         dirinfo_loop d np (Suc k) l h = dirinfo_loop d np k (l @ [p]) h1"
proof (intro conjI impI)
  show "record_currentpos h = of_nat (cursor (stream h) + 9)"
    by (rule record_currentpos_eq)
  show "cursor (stream h1) = unat (record_currentpos h)"
    by (rule record_step_cursor [OF assms])
  show "dirinfo_loop d np (Suc k) l h = dirinfo_loop d np k (l @ [p]) h1"
    by (simp add: dirinfo_loop_step assms)
next
  assume "cursor (stream h) + 9 < 2 ^ 32"
  with record_step_cursor [OF assms] show "cursor (stream h1) = cursor (stream h) + 9"
    by (simp only: record_currentpos_eq unat_of_nat_u32)
qed

lemma nested_step:
  "record_step (Suc 0) [] nested_loop
     = Some (Inr (0, restore 37
         (nested_loop\<lparr>stream := (stream nested_loop)\<lparr>cursor := 47\<rparr>,
            heap := [dir_entry 7 [] ''d'' []], flatlist := [0]\<rparr>)))"
  by (simp add: walk_eval nested_archive_def nested_loop_def)

theorem cursor_restored_after_record_witness:
  "record_step (Suc 0) [] nested_loop
     = Some (Inr (0, restore 37
         (nested_loop\<lparr>stream := (stream nested_loop)\<lparr>cursor := 47\<rparr>,
            heap := [dir_entry 7 [] ''d'' []], flatlist := [0]\<rparr>)))
   \<and> cursor (stream nested_loop) = 28
   \<and> record_currentpos nested_loop = 37
   \<and> cursor (stream (restore 37
         (nested_loop\<lparr>stream := (stream nested_loop)\<lparr>cursor := 47\<rparr>,
            heap := [dir_entry 7 [] ''d'' []], flatlist := [0]\<rparr>))) = 37"
proof -
  have c: "cursor (stream nested_loop) = 28"
    by (simp add: walk_eval nested_loop_def)
  from cursor_restored_after_record [OF nested_step, of 0 "[]"] c
  have "record_currentpos nested_loop = 37 \<and>
        cursor (stream (restore 37
         (nested_loop\<lparr>stream := (stream nested_loop)\<lparr>cursor := 47\<rparr>,
            heap := [dir_entry 7 [] ''d'' []], flatlist := [0]\<rparr>))) = 37"
    by simp
  with nested_step c show ?thesis by (elim conjE) (intro conjI)
qed


lemma far_eval:
  "cursor (stream far_loop) = 4294967287"
  "record_entrytype far_loop = 0"
  "record_currentpos far_loop = 0"
  by (simp_all add: walk_eval far_loop_def far_stream_def)

text \<open>
  C8, as stated, fails for a record that ends at stream position \<open>2 ^ 32\<close>: in a stream
  whose root directory lies at \<open>0xFFFFFFEF\<close>, the one record is read from 4294967287
  on, the saved cursor is the 32-bit value 0, and the iteration ends with the cursor at 0,
  not nine bytes after the start of the record.
\<close>

theorem cursor_truncated_counterexample:
  "header_magic1 (fresh_hpifile 7 far_stream) = HAPI_MAGIC
   \<and> header_magic2 (fresh_hpifile 7 far_stream) = HAPI_VERSION_MAGIC
   \<and> header_diroffset (header_read (fresh_hpifile 7 far_stream)) = 0xFFFFFFEF
   \<and> far_loop = dir_start 0xFFFFFFEF (header_read (fresh_hpifile 7 far_stream))
   \<and> cursor (stream far_loop) = 4294967287
   \<and> record_entrytype far_loop = 0
   \<and> record_step (Suc 0) [] far_loop = Some (Inr (0, far_next))
   \<and> record_currentpos far_loop = 0
   \<and> cursor (stream far_next) = 0
   \<and> cursor (stream far_next) \<noteq> cursor (stream far_loop) + 9"
proof -
  have hd: "header_magic1 (fresh_hpifile 7 far_stream) = HAPI_MAGIC"
    "header_magic2 (fresh_hpifile 7 far_stream) = HAPI_VERSION_MAGIC"
    "header_diroffset (header_read (fresh_hpifile 7 far_stream)) = 0xFFFFFFEF"
    by (simp_all add: walk_eval far_stream_def HAPI_MAGIC_def HAPI_VERSION_MAGIC_def)
  have step: "record_step (Suc 0) [] far_loop = Some (Inr (0, far_next))"
    by (simp add: record_step_def far_eval(2) case_prod_beta fileinfo_eq far_next_def)
       (simp add: far_loop_def record_child_def dir_start_def header_read_def fresh_hpifile_def
          Let_def)
  have c: "cursor (stream far_next) = 0"
    by (simp add: far_next_def restore_def far_eval(3))
  then have ne: "cursor (stream far_next) \<noteq> cursor (stream far_loop) + 9"
    by (simp add: far_eval(1))
  show ?thesis
    using hd far_loop_def far_eval(1,2) step far_eval(3) c ne
    by (intro conjI)
qed

subsection \<open>getdata in terms of the chunk table\<close>

lemma getdata_eq:
  assumes "he_file he = self h" and "\<not> directory he"
  shows "getdata sqsh h he data =
     (case getdata_chunks sqsh (snd (chunk_table h he)) (chunkoffset_of he)
             (fst (chunk_table h he)) 0 data of
        Inl (data', f') \<Rightarrow> (0, data', h\<lparr>stream := f'\<rparr>, [])
      | Inr (j, data', f') \<Rightarrow> (j, data', h\<lparr>stream := f'\<rparr>, []))"
  unfolding getdata_def chunk_table_def chunkoffset_of_def Let_def case_prod_beta
  using assms by (simp only: if_False simp_thms)

lemma getdata_chunks_Cons:
  "getdata_chunks sqsh f co (c # cs) j data =
     (if sqsh_valid sqsh (fst (substream f (co + j) c)) then
        getdata_chunks sqsh (snd (substream f (co + j) c)) co cs
          (j + of_nat (length (sqsh_readall sqsh (fst (substream f (co + j) c)))))
          (write_at data (unat j) (sqsh_readall sqsh (fst (substream f (co + j) c))))
      else Inl (data, snd (substream f (co + j) c)))"
  by (simp add: Let_def case_prod_beta)

declare getdata_chunks.simps(2) [simp del]


lemma read_chunksizes_length: "length (fst (read_chunksizes n f)) = n"
  by (induction n arbitrary: f) (simp_all add: case_prod_beta Let_def)

lemma read_chunksizes_cursor: "cursor (snd (read_chunksizes n f)) = cursor f + 4 * n"
  by (induction n arbitrary: f) (simp_all add: case_prod_beta Let_def)

text \<open>
  The parts of C2 that hold: the table is read from the offset of the entry, so the cursor
  stands at the start of the payload, four bytes per chunk after the offset; and every
  view has the size that the table gives for its chunk.
\<close>

lemma chunk_table_facts:
  "length (fst (chunk_table h he)) = unat (chunknum_of he)"
  "cursor (snd (chunk_table h he)) = unat (he_offset he) + 4 * unat (chunknum_of he)"
  by (simp_all add: chunk_table_def read_chunksizes_length read_chunksizes_cursor)

lemma substream_facts:
  "ss_start (fst (substream f start sz)) = start"
  "ss_size (fst (substream f start sz)) = sz"
  "length (ss_bytes (fst (substream f start sz))) = unat sz"
  by (simp_all add: substream_def)

text \<open>
  Where the views start: the first at the start of the payload, the second at the start
  of the payload plus the number of bytes that the first chunk decompressed to.
\<close>

lemma second_view_start:
  assumes "sqsh_valid sqsh (fst (substream f co c0))"
  shows "getdata_chunks sqsh f co (c0 # c1 # rest) 0 data =
     getdata_chunks sqsh (snd (substream f co c0)) co (c1 # rest)
       (of_nat (length (sqsh_readall sqsh (fst (substream f co c0)))))
       (write_at data 0 (sqsh_readall sqsh (fst (substream f co c0))))"
  and "ss_start (fst (substream (snd (substream f co c0))
          (co + of_nat (length (sqsh_readall sqsh (fst (substream f co c0))))) c1))
       = co + of_nat (length (sqsh_readall sqsh (fst (substream f co c0))))"
  using assms by (simp_all add: getdata_chunks_Cons substream_facts)

subsection \<open>The views and the buffer\<close>










lemmas chunk_eval =
  getdata_chunks_Cons substream_def stored_codec_def write_at_def plain_stream_def
  readint_def read_def seek_def fresh_hpifile_def new_hpientry_def Let_def

lemmas chunknum_eval =
  chunkoffset_of_def chunknum_of_def bitdiv_def bitmod_def new_hpientry_def

subsection \<open>A chunk that the codec rejects\<close>












subsection \<open>Where the second chunk is read\<close>

text \<open>
  C2, evaluated on an entry of two chunks. The table gives the sizes 3 and 3, the payload
  starts at 8, and the stream holds a valid chunk at 8 and a valid chunk at 11 = 8 + 3.
  The first chunk decompresses to two bytes, and the second view that \<^verbatim>\<open>getdata\<close>
  makes starts at 10 = 8 + 2: the counter \<^verbatim>\<open>j\<close> of decompressed bytes serves as the
  cursor into the compressed payload. The view at 10 is no chunk, and \<^verbatim>\<open>getdata\<close>
  returns 0.
\<close>

theorem second_chunk_read_at_decompressed_length:
  "he_file two_chunk_entry = self chunk_hpifile
   \<and> \<not> directory two_chunk_entry
   \<and> fst (chunk_table chunk_hpifile two_chunk_entry) = [3, 3]
   \<and> chunkoffset_of two_chunk_entry = 8
   \<and> sqsh_valid stored_codec (fst (substream (stream chunk_hpifile) 8 3))
   \<and> sqsh_readall stored_codec (fst (substream (stream chunk_hpifile) 8 3)) = [0x0A, 0x0B]
   \<and> sqsh_valid stored_codec (fst (substream (stream chunk_hpifile) (8 + 3) 3))
   \<and> \<not> sqsh_valid stored_codec (fst (substream (stream chunk_hpifile) (8 + 2) 3))
   \<and> getdata_chunks stored_codec (snd (chunk_table chunk_hpifile two_chunk_entry)) 8 [3, 3] 0 []
       = getdata_chunks stored_codec ((plain_stream chunk_bytes)\<lparr>cursor := 11\<rparr>) 8 [3] 2
           [0x0A, 0x0B]
   \<and> ss_start (fst (substream ((plain_stream chunk_bytes)\<lparr>cursor := 11\<rparr>) (8 + 2) 3)) = 10
   \<and> fst (getdata stored_codec chunk_hpifile two_chunk_entry []) = 0
   \<and> fst (snd (getdata stored_codec chunk_hpifile two_chunk_entry [])) = [0x0A, 0x0B]"
proof -
  have own: "he_file two_chunk_entry = self chunk_hpifile" "\<not> directory two_chunk_entry"
    by (simp_all add: two_chunk_entry_def chunk_hpifile_def fresh_hpifile_def new_hpientry_def)
  have num: "unat (chunknum_of two_chunk_entry) = Suc (Suc 0)"
    and off: "chunkoffset_of two_chunk_entry = 8"
    by (simp_all add: chunknum_eval two_chunk_entry_def)
  have tab: "fst (chunk_table chunk_hpifile two_chunk_entry) = [3, 3]"
    and str: "snd (chunk_table chunk_hpifile two_chunk_entry)
              = (plain_stream chunk_bytes)\<lparr>cursor := 8\<rparr>"
    unfolding chunk_table_def num
    by (simp_all add: chunk_eval two_chunk_entry_def chunk_hpifile_def chunk_bytes_def)
  have views: "sqsh_valid stored_codec (fst (substream (stream chunk_hpifile) 8 3))"
    "sqsh_readall stored_codec (fst (substream (stream chunk_hpifile) 8 3)) = [0x0A, 0x0B]"
    "sqsh_valid stored_codec (fst (substream (stream chunk_hpifile) (8 + 3) 3))"
    "\<not> sqsh_valid stored_codec (fst (substream (stream chunk_hpifile) (8 + 2) 3))"
    "ss_start (fst (substream ((plain_stream chunk_bytes)\<lparr>cursor := 11\<rparr>) (8 + 2) 3)) = 10"
    by (simp_all add: chunk_eval chunk_hpifile_def chunk_bytes_def)
  have step: "getdata_chunks stored_codec (snd (chunk_table chunk_hpifile two_chunk_entry)) 8
                [3, 3] 0 []
       = getdata_chunks stored_codec ((plain_stream chunk_bytes)\<lparr>cursor := 11\<rparr>) 8 [3] 2
           [0x0A, 0x0B]"
    unfolding str
    by (subst getdata_chunks_Cons) (simp add: substream_def stored_codec_def write_at_def
          plain_stream_def chunk_bytes_def)
  have res: "getdata_chunks stored_codec ((plain_stream chunk_bytes)\<lparr>cursor := 11\<rparr>) 8 [3] 2
           [0x0A, 0x0B]
       = Inl ([0x0A, 0x0B], (plain_stream chunk_bytes)\<lparr>cursor := 13\<rparr>)"
    by (simp add: chunk_eval chunk_bytes_def)
  have out: "fst (getdata stored_codec chunk_hpifile two_chunk_entry []) = 0"
    "fst (snd (getdata stored_codec chunk_hpifile two_chunk_entry [])) = [0x0A, 0x0B]"
    by (simp_all add: getdata_eq [OF own] tab off step res)
  show ?thesis
    using own tab off views step out by (intro conjI)
qed

subsection \<open>A file of two chunks in a well-formed archive\<close>

lemma wf_header:
  "header_magic1 (fresh_hpifile 7 (plain_stream wf_archive)) = HAPI_MAGIC"
  "header_magic2 (fresh_hpifile 7 (plain_stream wf_archive)) = HAPI_VERSION_MAGIC"
  "header_diroffset (header_read (fresh_hpifile 7 (plain_stream wf_archive))) = 20"
  by (simp_all add: walk_eval wf_archive_def HAPI_MAGIC_def HAPI_VERSION_MAGIC_def)

lemma wf_walk:
  "dirinfo (Suc (Suc 0)) [] [] 20 (header_read (fresh_hpifile 7 (plain_stream wf_archive)))
     = Some (Inr (1, wf_opened\<lparr>flatlist := [0, 1]\<rparr>))"
  by (simp add: walk_eval wf_archive_def wf_opened_def)

lemma wf_archive_opens:
  "hpifile_new (Suc (Suc 0)) 7 (plain_stream wf_archive) = Some (Inr (wf_opened, []))"
  unfolding hpifile_new_def
  by (simp add: validate_accepted wf_header wf_walk) (simp add: wf_opened_def)

lemma wf_entry_facts:
  "he_file wf_entry = self wf_opened" "\<not> directory wf_entry"
  "unat (chunknum_of wf_entry) = Suc (Suc 0)" "chunkoffset_of wf_entry = 55"
  "he_size wf_entry = 65537"
  by (simp_all add: chunknum_eval wf_entry_def wf_opened_def)

lemma wf_table:
  "fst (chunk_table wf_opened wf_entry) = [4, 4]"
  "snd (chunk_table wf_opened wf_entry) = (plain_stream wf_archive)\<lparr>cursor := 55\<rparr>"
  unfolding chunk_table_def wf_entry_facts(3)
  by (simp_all add: chunk_eval wf_entry_def wf_opened_def wf_archive_def)

lemmas rle_eval =
  substream_def rle_codec_def plain_stream_def wf_archive_def wf_opened_def

lemma wf_views:
  "sqsh_valid rle_codec (fst (substream (stream wf_opened) 55 4))"
  "length (sqsh_readall rle_codec (fst (substream (stream wf_opened) 55 4))) = 65536"
  "sqsh_valid rle_codec (fst (substream (stream wf_opened) (55 + 4) 4))"
  "length (sqsh_readall rle_codec (fst (substream (stream wf_opened) (55 + 4) 4))) = 1"
  "\<not> sqsh_valid rle_codec (fst (substream (stream wf_opened) (55 + 65536) 4))"
  by (simp_all add: rle_eval)

lemma wf_loop:
  "\<exists>data' f'. getdata_chunks rle_codec (snd (chunk_table wf_opened wf_entry))
     (chunkoffset_of wf_entry) (fst (chunk_table wf_opened wf_entry)) 0 [] = Inl (data', f')"
  unfolding wf_table wf_entry_facts(4)
  by (simp add: getdata_chunks_Cons substream_def rle_codec_def plain_stream_def wf_archive_def)

text \<open>
  C3, evaluated on a well-formed archive. The archive opens as valid, and its one file has
  size 65537 and two chunks that lie back to back at 55 and at 59, as the table says; the
  codec accepts both, and they decompress to 65536 bytes and to 1 byte, 65537 in all. The
  first chunk is decoded; the second view is made at 55 + 65536, where there is no
  chunk, and \<^verbatim>\<open>getdata\<close> returns 0, not the size of the entry.
\<close>

theorem getdata_two_chunks_returns_zero:
  "hpifile_new (Suc (Suc 0)) 7 (plain_stream wf_archive) = Some (Inr (wf_opened, []))
   \<and> valid wf_opened
   \<and> wf_entry = heap wf_opened ! 0
   \<and> he_file wf_entry = self wf_opened
   \<and> \<not> directory wf_entry
   \<and> he_size wf_entry = 65537
   \<and> fst (chunk_table wf_opened wf_entry) = [4, 4]
   \<and> chunkoffset_of wf_entry = 55
   \<and> sqsh_valid rle_codec (fst (substream (stream wf_opened) 55 4))
   \<and> length (sqsh_readall rle_codec (fst (substream (stream wf_opened) 55 4))) = 65536
   \<and> sqsh_valid rle_codec (fst (substream (stream wf_opened) (55 + 4) 4))
   \<and> length (sqsh_readall rle_codec (fst (substream (stream wf_opened) (55 + 4) 4))) = 1
   \<and> \<not> sqsh_valid rle_codec (fst (substream (stream wf_opened) (55 + 65536) 4))
   \<and> fst (getdata rle_codec wf_opened wf_entry []) = 0
   \<and> fst (getdata rle_codec wf_opened wf_entry []) \<noteq> he_size wf_entry"
proof -
  have v: "valid wf_opened" by (simp add: wf_opened_def)
  from wf_loop obtain data' f' where
    "getdata_chunks rle_codec (snd (chunk_table wf_opened wf_entry))
       (chunkoffset_of wf_entry) (fst (chunk_table wf_opened wf_entry)) 0 [] = Inl (data', f')"
    by blast
  then have z: "fst (getdata rle_codec wf_opened wf_entry []) = 0"
    by (simp add: getdata_eq [OF wf_entry_facts(1,2)])
  then have ne: "fst (getdata rle_codec wf_opened wf_entry []) \<noteq> he_size wf_entry"
    by (simp add: wf_entry_facts(5))
  show ?thesis
    using wf_archive_opens v wf_entry_def wf_entry_facts(1,2,5) wf_table(1) wf_entry_facts(4)
      wf_views z ne
    by (intro conjI)
qed

subsection \<open>The depth bound\<close>

text \<open>
  A result obtained within a depth bound is the result for every larger bound: the bound
  only decides whether the model reaches the result.
\<close>

lemma record_step_mono:
  assumes D: "\<And>pn dn off h r. dirinfo d pn dn off h = Some r \<Longrightarrow> dirinfo (Suc d) pn dn off h = Some r"
    and "record_step d np h = Some s"
  shows "record_step (Suc d) np h = Some s"
proof (cases "record_entrytype h = 1")
  case True
  then have ne: "record_entrytype h \<noteq> 0" by simp
  let ?c = "dirinfo d np (record_itemname h) (record_infooffset h) (record_child h)"
  from assms(2) True ne obtain r where r: "?c = Some r"
    by (cases ?c) (simp_all add: record_step_def)
  from D [OF r] r assms(2) True ne show ?thesis
    by (simp add: record_step_def)
next
  case False
  with assms(2) show ?thesis
    by (cases "record_entrytype h = 0") (simp_all add: record_step_def)
qed

lemma dirinfo_loop_mono:
  assumes D: "\<And>pn dn off h r. dirinfo d pn dn off h = Some r \<Longrightarrow> dirinfo (Suc d) pn dn off h = Some r"
  shows "dirinfo_loop d np k l h = Some r \<Longrightarrow> dirinfo_loop (Suc d) np k l h = Some r"
proof (induction k arbitrary: l h)
  case 0
  then show ?case by simp
next
  case (Suc k)
  from Suc.prems obtain s where s: "record_step d np h = Some s"
    by (cases "record_step d np h") (simp_all add: dirinfo_loop_step)
  have s': "record_step (Suc d) np h = Some s"
    by (rule record_step_mono [OF D s])
  show ?case
  proof (cases s)
    case (Inl e)
    with Suc.prems s s' show ?thesis by (simp add: dirinfo_loop_step)
  next
    case (Inr ph)
    obtain p h1 where ph: "ph = (p, h1)" by (cases ph)
    from Suc.prems s Inr ph have "dirinfo_loop d np k (l @ [p]) h1 = Some r"
      by (simp add: dirinfo_loop_step)
    from Suc.IH [OF this] s' Inr ph show ?thesis
      by (simp add: dirinfo_loop_step)
  qed
qed

lemma dirinfo_mono:
  "dirinfo d pn dn off h = Some r \<Longrightarrow> dirinfo (Suc d) pn dn off h = Some r"
proof (induction d arbitrary: pn dn off h r)
  case 0
  then show ?case by simp
next
  case (Suc d)
  let ?l = "dirinfo_loop d (newparent_of pn dn) (unat (dir_entries off h)) [] (dir_start off h)"
  from Suc.prems obtain s where s: "?l = Some s"
    by (cases ?l) (simp_all add: dirinfo_Suc)
  have "dirinfo_loop (Suc d) (newparent_of pn dn) (unat (dir_entries off h)) [] (dir_start off h)
        = Some s"
    by (rule dirinfo_loop_mono [OF Suc.IH s])
  with Suc.prems s show ?case
    by (simp add: dirinfo_Suc [of "Suc d"] dirinfo_Suc [of d])
qed

lemma validate_mono:
  assumes "validate d h = Some r"
  shows "validate (Suc d) h = Some r"
proof (cases "header_magic1 h = HAPI_MAGIC \<and> header_magic2 h = HAPI_VERSION_MAGIC")
  case True
  then have m: "header_magic1 h = HAPI_MAGIC" "header_magic2 h = HAPI_VERSION_MAGIC" by simp_all
  let ?w = "dirinfo d [] [] (header_diroffset (header_read h)) (header_read h)"
  from assms obtain s where s: "?w = Some s"
    by (cases ?w) (simp_all add: validate_accepted [OF m])
  from dirinfo_mono [OF s] s assms show ?thesis
    by (simp add: validate_accepted [OF m])
next
  case False
  then consider "header_magic1 h \<noteq> HAPI_MAGIC"
    | "header_magic1 h = HAPI_MAGIC" "header_magic2 h \<noteq> HAPI_VERSION_MAGIC"
    by blast
  then show ?thesis
  proof cases
    case 1
    from validate_rejected1 [OF 1, of d] validate_rejected1 [OF 1, of "Suc d"] assms
    show ?thesis by simp
  next
    case 2
    from validate_rejected2 [OF 2, of d] validate_rejected2 [OF 2, of "Suc d"] assms
    show ?thesis by simp
  qed
qed


end
